theory Spec2Isabelle
  imports Main "HOL-Library.Word"
begin

section \<open>The ABI method model of accounts/abi/method.go\<close>

text \<open>
  The file \<^verbatim>\<open>accounts/abi/method.go\<close> is present in two revisions. Both declare the
  same \<^verbatim>\<open>Method\<close> struct and the same \<^verbatim>\<open>pack\<close>, \<^verbatim>\<open>singleUnpack\<close>,
  \<^verbatim>\<open>Sig\<close> and \<^verbatim>\<open>Id\<close>; they differ in how \<^verbatim>\<open>tupleUnpack\<close> moves its head cursor
  past a fixed-size array. The functions of the package that \<^verbatim>\<open>method.go\<close> calls but
  does not define (\<^verbatim>\<open>Type.pack\<close>, \<^verbatim>\<open>packNum\<close>, \<^verbatim>\<open>toGoType\<close>, \<^verbatim>\<open>set\<close>, ...) are
  parameters of the model, collected in the record \<open>helpers\<close>; the theorems about
  \<^verbatim>\<open>method.go\<close> hold for every choice of them.
\<close>

subsection \<open>Bytes and machine integers\<close>

type_synonym byte = "8 word"
type_synonym bytes = "byte list"

text \<open>Go's \<^verbatim>\<open>int\<close> on a 64-bit platform: arithmetic wraps around modulo \<open>2^64\<close>.\<close>

definition int64 :: "int \<Rightarrow> int" where
  "int64 x = sint (word_of_int x :: 64 word)"

subsection \<open>Types, arguments, methods\<close>

text \<open>
  Modelled from the spec: the declaration of \<^verbatim>\<open>Type\<close> (type.go) is not part of
  \<^verbatim>\<open>method.go\<close>, which reads its fields \<^verbatim>\<open>T\<close> and \<^verbatim>\<open>Size\<close>, compares \<^verbatim>\<open>T\<close> with
  \<^verbatim>\<open>ArrayTy\<close> and calls \<^verbatim>\<open>String()\<close>. The kinds are those of the data model
  (\<open>Int\<close>, \<open>Uint\<close>, \<open>Bool\<close>, \<open>String\<close>, \<open>Address\<close>, \<open>FixedBytes\<close>, \<open>Bytes\<close>,
  \<open>Hash\<close>, \<open>FixedArray\<close> = \<open>ArrayTy\<close>, \<open>DynamicArray\<close> = \<open>SliceTy\<close>, \<open>Function\<close>);
  \<open>Size\<close> is the bit width, byte width or element count; \<open>Elem\<close> is the element type
  of an array; \<open>stringKind\<close> is the canonical textual form (\<open>stringForm\<close>).
\<close>

datatype kind =
    IntTy | UintTy | BoolTy | StringTy | SliceTy | ArrayTy
  | AddressTy | FixedBytesTy | BytesTy | HashTy | FunctionTy

datatype Type = MkType (T: kind) (Size: int) (Elem: "Type option") (stringKind: string)

text \<open>Modelled from the spec: \<^verbatim>\<open>Type.String()\<close> returns the canonical textual form.\<close>

definition Type_String :: "Type \<Rightarrow> string" where
  "Type_String t = stringKind t"

record Argument =
  Name :: string
  Type :: Type
  Indexed :: bool

record Method =
  Name :: string
  Const :: bool
  Inputs :: "Argument list"
  Outputs :: "Argument list"

subsection \<open>Host values as reflection sees them\<close>

text \<open>
  Go types, as far as error messages name them: \<open>Named\<close> a type by its name
  (\<^verbatim>\<open>string\<close>, \<^verbatim>\<open>big.Int\<close>, \<^verbatim>\<open>interface {}\<close>), \<open>PtrTo\<close>, \<open>ArrayOf\<close> and
  \<open>SliceOf\<close> the composite types, \<open>NilType\<close> what \<^verbatim>\<open>%T\<close> prints for nil.

  A Go value as \<^verbatim>\<open>reflect.ValueOf\<close> presents it: its kind is the constructor, and
  each node carries its Go type (what \<^verbatim>\<open>%T\<close> and \<^verbatim>\<open>%v\<close> of the type print).
  \<open>Ptr t x\<close> is a pointer whose \<^verbatim>\<open>Elem()\<close> is \<open>x\<close>, \<open>Iface t x\<close> an interface value
  holding \<open>x\<close>; a nil pointer or nil interface has \<open>x = Invalid\<close>, the zero
  \<^verbatim>\<open>reflect.Value\<close>. \<open>Other\<close> is a value of any other kind (integers, strings, maps,
  ...) with a content the code of \<^verbatim>\<open>method.go\<close> never inspects. A destination is a
  tree: mutation through a pointer is the replacement of the subtree below it, and no
  two places of one destination alias.
\<close>

datatype gotype =
    Named string
  | PtrTo gotype
  | ArrayOf nat gotype
  | SliceOf gotype
  | NilType

datatype 'a rvalue =
    Invalid
  | Other gotype 'a
  | Struct gotype "(string \<times> 'a rvalue) list"
  | Slice gotype "'a rvalue list"
  | Array gotype "'a rvalue list"
  | Ptr gotype "'a rvalue"
  | Iface gotype "'a rvalue"

fun typeOf :: "'a rvalue \<Rightarrow> gotype" where
  "typeOf Invalid = NilType"
| "typeOf (Other t c) = t"
| "typeOf (Struct t fs) = t"
| "typeOf (Slice t es) = t"
| "typeOf (Array t es) = t"
| "typeOf (Ptr t x) = t"
| "typeOf (Iface t x) = t"

subsection \<open>Errors, panics, results\<close>

text \<open>
  One constructor per error message; the arguments are the values the message is
  formatted with.
  \<^item> \<open>ArgCountMismatch a n\<close>: \<^verbatim>\<open>argument count mismatch: %d for %d\<close>
  \<^item> \<open>PackFailed name err\<close>: the method name and the error of \<^verbatim>\<open>Type.pack\<close>
  \<^item> \<open>NonPointer t\<close>: \<^verbatim>\<open>abi: Unpack(non-pointer %T)\<close>
  \<^item> \<open>InsufficientElements want got\<close>:
    \<^verbatim>\<open>abi: insufficient number of elements in the list/array for unpack, want %d, got %d\<close>
  \<^item> \<open>CannotUnmarshalTuple t\<close>: \<^verbatim>\<open>abi: cannot unmarshal tuple into %v\<close>
  \<^item> \<open>CannotUnmarshal src dst\<close>: \<^verbatim>\<open>abi: cannot unmarshal %v in to %v\<close>
  \<^item> \<open>Truncated have need\<close>: the buffer holds \<open>have\<close> bytes where \<open>need\<close> are required
  \<^item> \<open>OutOfRange\<close>, \<open>TypeMismatch\<close>, \<open>Unsupported\<close>: the remaining error kinds of the
    word codec
  The first three are raised by \<^verbatim>\<open>method.go\<close> itself, the others by its helpers.
\<close>

datatype error =
    ArgCountMismatch nat nat
  | PackFailed string error
  | NonPointer gotype
  | InsufficientElements nat nat
  | CannotUnmarshalTuple gotype
  | CannotUnmarshal gotype gotype
  | Truncated nat int
  | OutOfRange
  | TypeMismatch
  | Unsupported

text \<open>The run-time panics \<^verbatim>\<open>method.go\<close> can raise by itself.\<close>

datatype panic =
    SliceBoundsOutOfRange
  | IndexOutOfRange
  | TypeOfZeroValue
  | ElemOfNonPointer

text \<open>
  A call returns normally (\<open>Ok\<close>), returns a non-nil error (\<open>Err\<close>) or panics.
\<close>

datatype 'r result = Ok 'r | Err error | Panic panic

subsection \<open>The functions method.go calls and does not define\<close>

text \<open>
  \<^item> \<open>typePack t v\<close>: \<^verbatim>\<open>t.pack(v)\<close>, the encoding of one value
  \<^item> \<open>requiresLengthPrefix t\<close>: \<^verbatim>\<open>t.requiresLengthPrefix()\<close>
  \<^item> \<open>packNum n\<close>: \<^verbatim>\<open>packNum(reflect.ValueOf(n))\<close> for a Go \<^verbatim>\<open>int\<close>
  \<^item> \<open>toGoType index t output\<close>: the value of type \<open>t\<close> decoded at byte \<open>index\<close>
  \<^item> \<open>requireUnpackKind value args flag\<close>: the check of the destination's kind; the
    source also passes the type and kind of \<open>value\<close>, which \<open>value\<close> determines
  \<^item> \<open>requireAssignable dst src\<close>
  \<^item> \<open>set_go dst src output\<close>: \<^verbatim>\<open>set(dst, src, output)\<close>; the new content of \<open>dst\<close>,
    or an error that leaves \<open>dst\<close> as it was
  \<^item> \<open>ToUpper\<close>: \<^verbatim>\<open>strings.ToUpper\<close>
  \<^item> \<open>Keccak256\<close>: \<^verbatim>\<open>crypto.Keccak256\<close>
  A helper returns a value or an error; a panic inside a helper is not modelled.
\<close>

record 'a helpers =
  typePack :: "Type \<Rightarrow> 'a rvalue \<Rightarrow> error + bytes"
  requiresLengthPrefix :: "Type \<Rightarrow> bool"
  packNum :: "int \<Rightarrow> bytes"
  toGoType :: "int \<Rightarrow> Type \<Rightarrow> bytes \<Rightarrow> error + 'a rvalue"
  requireUnpackKind :: "'a rvalue \<Rightarrow> Argument list \<Rightarrow> bool \<Rightarrow> error option"
  requireAssignable :: "'a rvalue \<Rightarrow> 'a rvalue \<Rightarrow> error option"
  set_go :: "'a rvalue \<Rightarrow> 'a rvalue \<Rightarrow> Argument \<Rightarrow> error + 'a rvalue"
  ToUpper :: "string \<Rightarrow> string"
  Keccak256 :: "bytes \<Rightarrow> bytes"

subsection \<open>Method.pack\<close>

text \<open>
  The loop of \<^verbatim>\<open>pack\<close> over \<^verbatim>\<open>args\<close>, with its index \<open>i\<close> and its two buffers.
  \<^verbatim>\<open>m.Inputs[i]\<close> panics out of range. The offset is a sum of lengths of slices
  held in memory and cannot reach \<open>2^63\<close>, so it is not reduced.
\<close>

fun pack_loop ::
  "'a helpers \<Rightarrow> Method \<Rightarrow> nat \<Rightarrow> 'a rvalue list \<Rightarrow> bytes \<Rightarrow> bytes \<Rightarrow> (bytes \<times> bytes) result"
where
  "pack_loop h m i [] ret variableInput = Ok (ret, variableInput)"
| "pack_loop h m i (a # args) ret variableInput =
     (if length (Inputs m) \<le> i then Panic IndexOutOfRange
      else
        let input = Inputs m ! i in
        case typePack h (Type input) a of
          Inl err \<Rightarrow> Err (PackFailed (Method.Name m) err)
        | Inr packed \<Rightarrow>
            if requiresLengthPrefix h (Type input)
            then
              let offset = int (length (Inputs m)) * 32 + int (length variableInput)
              in pack_loop h m (Suc i) args (ret @ packNum h offset) (variableInput @ packed)
            else pack_loop h m (Suc i) args (ret @ packed) variableInput)"

definition pack :: "'a helpers \<Rightarrow> Method \<Rightarrow> 'a rvalue list \<Rightarrow> bytes result" where
  "pack h m args =
     (if length args \<noteq> length (Inputs m)
      then Err (ArgCountMismatch (length args) (length (Inputs m)))
      else
        case pack_loop h m 0 args [] [] of
          Ok (ret, variableInput) \<Rightarrow> Ok (ret @ variableInput)
        | Err e \<Rightarrow> Err e
        | Panic p \<Rightarrow> Panic p)"

subsection \<open>Method.tupleUnpack\<close>

text \<open>
  The expression \<^verbatim>\<open>strings.ToUpper(output.Name[:1]) + output.Name[1:]\<close>. Slicing the
  first byte off an empty name panics (slice bounds out of range): \<open>None\<close>.
\<close>

definition capitalised :: "'a helpers \<Rightarrow> string \<Rightarrow> string option" where
  "capitalised h name =
     (if length name < 1 then None
      else Some (ToUpper h (take 1 name) @ drop 1 name))"

text \<open>
  \<^verbatim>\<open>case reflect.Struct\<close>: the loop over the fields of the destination struct, in
  declaration order. The field name is compared with the capitalised argument name
  in every iteration, so the name is sliced only when the struct has a field. The
  fields written before an error or a panic stay written.
\<close>

fun set_fields ::
  "'a helpers \<Rightarrow> Argument \<Rightarrow> 'a rvalue \<Rightarrow> (string \<times> 'a rvalue) list
     \<Rightarrow> (string \<times> 'a rvalue) list \<times> unit result"
where
  "set_fields h output reflectValue [] = ([], Ok ())"
| "set_fields h output reflectValue ((fname, fval) # fs) =
     (case capitalised h (Argument.Name output) of
        None \<Rightarrow> ((fname, fval) # fs, Panic SliceBoundsOutOfRange)
      | Some cname \<Rightarrow>
          if fname = cname
          then
            (case set_go h fval reflectValue output of
               Inl err \<Rightarrow> ((fname, fval) # fs, Err err)
             | Inr fval' \<Rightarrow>
                 (case set_fields h output reflectValue fs of
                    (fs', r) \<Rightarrow> ((fname, fval') # fs', r)))
          else
            (case set_fields h output reflectValue fs of
               (fs', r) \<Rightarrow> ((fname, fval) # fs', r)))"

text \<open>
  \<^verbatim>\<open>case reflect.Slice, reflect.Array\<close>: \<^verbatim>\<open>value.Index(i)\<close> panics out of range, and
  \<^verbatim>\<open>v.Elem()\<close> panics unless \<open>v\<close> is a pointer or an interface.
\<close>

definition set_index ::
  "'a helpers \<Rightarrow> Argument \<Rightarrow> 'a rvalue \<Rightarrow> nat \<Rightarrow> 'a rvalue list
     \<Rightarrow> 'a rvalue list \<times> unit result"
where
  "set_index h output reflectValue i es =
     (if length es \<le> i then (es, Panic IndexOutOfRange)
      else
        let v = es ! i in
        case requireAssignable h v reflectValue of
          Some err \<Rightarrow> (es, Err err)
        | None \<Rightarrow>
            (case v of
               Ptr t x \<Rightarrow>
                 (case set_go h x reflectValue output of
                    Inl err \<Rightarrow> (es, Err err)
                  | Inr x' \<Rightarrow> (es[i := Ptr t x'], Ok ()))
             | Iface t x \<Rightarrow>
                 (case set_go h x reflectValue output of
                    Inl err \<Rightarrow> (es, Err err)
                  | Inr x' \<Rightarrow> (es[i := Iface t x'], Ok ()))
             | _ \<Rightarrow> (es, Panic ElemOfNonPointer)))"

text \<open>The \<^verbatim>\<open>switch kind\<close> of the loop body; any other kind is left alone.\<close>

definition assign_output ::
  "'a helpers \<Rightarrow> Argument \<Rightarrow> 'a rvalue \<Rightarrow> nat \<Rightarrow> 'a rvalue \<Rightarrow> 'a rvalue \<times> unit result"
where
  "assign_output h output reflectValue i dst =
     (case dst of
        Struct t fs \<Rightarrow>
          (case set_fields h output reflectValue fs of (fs', r) \<Rightarrow> (Struct t fs', r))
      | Slice t es \<Rightarrow>
          (case set_index h output reflectValue i es of (es', r) \<Rightarrow> (Slice t es', r))
      | Array t es \<Rightarrow>
          (case set_index h output reflectValue i es of (es', r) \<Rightarrow> (Array t es', r))
      | _ \<Rightarrow> (dst, Ok ()))"

text \<open>
  The loop of the revision that decodes at \<open>(i + j) * 32\<close> first and then adds
  \<open>Size - 1\<close> to \<open>j\<close> for a fixed-size array.
\<close>

fun unpack_loop_post ::
  "'a helpers \<Rightarrow> Argument list \<Rightarrow> nat \<Rightarrow> int \<Rightarrow> bytes \<Rightarrow> 'a rvalue
     \<Rightarrow> 'a rvalue \<times> unit result"
where
  "unpack_loop_post h [] i j outputSlice dst = (dst, Ok ())"
| "unpack_loop_post h (output # rest) i j outputSlice dst =
     (case toGoType h (int64 ((int i + j) * 32)) (Type output) outputSlice of
        Inl err \<Rightarrow> (dst, Err err)
      | Inr marshalledValue \<Rightarrow>
          let j' = (if T (Type output) = ArrayTy
                    then int64 (j + (Size (Type output) - 1)) else j)
          in
            (case assign_output h output marshalledValue i dst of
               (dst', Ok u) \<Rightarrow> unpack_loop_post h rest (Suc i) j' outputSlice dst'
             | (dst', Err err) \<Rightarrow> (dst', Err err)
             | (dst', Panic p) \<Rightarrow> (dst', Panic p)))"

text \<open>
  The loop of the revision that adds \<open>Size\<close> to \<open>j\<close> for a fixed-size array first
  and then decodes at \<open>(i + j) * 32\<close>. The loop variable \<^verbatim>\<open>o\<close> of the source is
  \<open>oarg\<close> here.
\<close>

fun unpack_loop_pre ::
  "'a helpers \<Rightarrow> Argument list \<Rightarrow> nat \<Rightarrow> int \<Rightarrow> bytes \<Rightarrow> 'a rvalue
     \<Rightarrow> 'a rvalue \<times> unit result"
where
  "unpack_loop_pre h [] i j output dst = (dst, Ok ())"
| "unpack_loop_pre h (oarg # rest) i j output dst =
     (let j' = (if T (Type oarg) = ArrayTy then int64 (j + Size (Type oarg)) else j) in
      case toGoType h (int64 ((int i + j') * 32)) (Type oarg) output of
        Inl err \<Rightarrow> (dst, Err err)
      | Inr marshalledValue \<Rightarrow>
          (case assign_output h oarg marshalledValue i dst of
             (dst', Ok u) \<Rightarrow> unpack_loop_pre h rest (Suc i) j' output dst'
           | (dst', Err err) \<Rightarrow> (dst', Err err)
           | (dst', Panic p) \<Rightarrow> (dst', Panic p)))"

text \<open>
  \<^verbatim>\<open>tupleUnpack\<close>, in both revisions: \<open>v\<close> is \<^verbatim>\<open>reflect.ValueOf\<close> of the destination.
  For a nil pointer \<^verbatim>\<open>valueOf.Elem()\<close> is the zero value, whose \<^verbatim>\<open>Type()\<close> panics.
  The result is the destination after the call and how the call ended.
\<close>

definition tupleUnpack_post ::
  "'a helpers \<Rightarrow> Method \<Rightarrow> 'a rvalue \<Rightarrow> bytes \<Rightarrow> 'a rvalue \<times> unit result"
where
  "tupleUnpack_post h method v outputSlice =
     (case v of
        Ptr t dst \<Rightarrow>
          if dst = Invalid then (v, Panic TypeOfZeroValue)
          else
            (case requireUnpackKind h dst (Outputs method) False of
               Some err \<Rightarrow> (v, Err err)
             | None \<Rightarrow>
                 (case unpack_loop_post h (Outputs method) 0 0 outputSlice dst of
                    (dst', r) \<Rightarrow> (Ptr t dst', r)))
      | _ \<Rightarrow> (v, Err (NonPointer (typeOf v))))"

definition tupleUnpack_pre ::
  "'a helpers \<Rightarrow> Method \<Rightarrow> 'a rvalue \<Rightarrow> bytes \<Rightarrow> 'a rvalue \<times> unit result"
where
  "tupleUnpack_pre h m v output =
     (case v of
        Ptr t dst \<Rightarrow>
          if dst = Invalid then (v, Panic TypeOfZeroValue)
          else
            (case requireUnpackKind h dst (Outputs m) False of
               Some err \<Rightarrow> (v, Err err)
             | None \<Rightarrow>
                 (case unpack_loop_pre h (Outputs m) 0 0 output dst of
                    (dst', r) \<Rightarrow> (Ptr t dst', r)))
      | _ \<Rightarrow> (v, Err (NonPointer (typeOf v))))"

subsection \<open>Method.singleUnpack\<close>

text \<open>\<^verbatim>\<open>m.Outputs[0]\<close> panics when the method has no output.\<close>

definition singleUnpack ::
  "'a helpers \<Rightarrow> Method \<Rightarrow> 'a rvalue \<Rightarrow> bytes \<Rightarrow> 'a rvalue \<times> unit result"
where
  "singleUnpack h m v output =
     (case v of
        Ptr t dst \<Rightarrow>
          (case Outputs m of
             [] \<Rightarrow> (v, Panic IndexOutOfRange)
           | o0 # rest \<Rightarrow>
               (case toGoType h 0 (Type o0) output of
                  Inl err \<Rightarrow> (v, Err err)
                | Inr marshalledValue \<Rightarrow>
                    (case set_go h dst marshalledValue o0 of
                       Inl err \<Rightarrow> (v, Err err)
                     | Inr dst' \<Rightarrow> (Ptr t dst', Ok ()))))
      | _ \<Rightarrow> (v, Err (NonPointer (typeOf v))))"

subsection \<open>Method.Sig and Method.Id\<close>

text \<open>
  \<^verbatim>\<open>strings.Join\<close>: nothing for no element, the element itself for one, and
  otherwise the first element followed by each further one behind a separator.
\<close>

fun Join :: "string list \<Rightarrow> string \<Rightarrow> string" where
  "Join [] sep = []"
| "Join [x] sep = x"
| "Join (x # y # ys) sep = x @ sep @ Join (y # ys) sep"

text \<open>
  The loop of \<^verbatim>\<open>Sig\<close> writes \<^verbatim>\<open>input.Type.String()\<close> into \<^verbatim>\<open>types[i]\<close>, a slice made
  with one empty string per input.
\<close>

fun Sig_loop :: "Argument list \<Rightarrow> nat \<Rightarrow> string list \<Rightarrow> string list" where
  "Sig_loop [] i types = types"
| "Sig_loop (input # rest) i types =
     Sig_loop rest (Suc i) (types[i := Type_String (Type input)])"

definition Sig :: "Method \<Rightarrow> string" where
  "Sig m =
     (let types = Sig_loop (Inputs m) 0 (replicate (length (Inputs m)) [])
      in Method.Name m @ ''('' @ Join types '','' @ '')'')"

text \<open>
  \<^verbatim>\<open>[]byte(s)\<close> of a string and the first four bytes of its hash. \<^verbatim>\<open>Keccak256\<close>
  returns 32 bytes, so the slice is in range.
\<close>

definition string_bytes :: "string \<Rightarrow> bytes" where
  "string_bytes s = map of_char s"

definition Id :: "'a helpers \<Rightarrow> Method \<Rightarrow> bytes" where
  "Id h m = take 4 (Keccak256 h (string_bytes (Sig m)))"

section \<open>The helpers, modelled from the spec\<close>

text \<open>
  The definitions of this section stand in for code of the package that is not in
  \<^verbatim>\<open>method.go\<close>. They follow what the specification says about the word codec, the
  decoder and its destinations, and they give the parameters of the model above a
  concrete value wherever a concrete scenario is evaluated.
\<close>

subsection \<open>Concrete host values\<close>

datatype content = GoInt int | GoBool bool | GoString string | GoBytes bytes

text \<open>
  Modelled from the spec: the host values of the decoder, whose Go declarations are
  not in \<^verbatim>\<open>method.go\<close>. Big integers are carried by an arbitrary-precision integer;
  a \<^verbatim>\<open>*big.Int\<close> is a pointer to a \<^verbatim>\<open>big.Int\<close>.
\<close>

definition bigInt :: "int \<Rightarrow> content rvalue" where
  "bigInt n = Ptr (PtrTo (Named ''big.Int'')) (Other (Named ''big.Int'') (GoInt n))"

text \<open>The results of a list of steps: the first error, or all values.\<close>

fun collect :: "(error + 'b) list \<Rightarrow> error + 'b list" where
  "collect [] = Inr []"
| "collect (Inl e # rs) = Inl e"
| "collect (Inr x # rs) = (case collect rs of Inl e \<Rightarrow> Inl e | Inr xs \<Rightarrow> Inr (x # xs))"

subsection \<open>Word codec\<close>

text \<open>
  Modelled from the spec: the word codec (pack.go and unpack.go are not among the
  sources). ABI words are 32 bytes, big-endian; an unsigned integer is
  zero-left-padded to 32 bytes; a payload is right-padded to a multiple of 32.
\<close>

definition be_nat :: "bytes \<Rightarrow> nat" where
  "be_nat bs = foldl (\<lambda>acc b. acc * 256 + unat b) 0 bs"

fun be_bytes :: "nat \<Rightarrow> nat \<Rightarrow> bytes" where
  "be_bytes 0 n = []"
| "be_bytes (Suc k) n = be_bytes k (n div 256) @ [of_nat n]"

definition word32 :: "nat \<Rightarrow> bytes" where
  "word32 n = be_bytes 32 n"

definition pad_right :: "bytes \<Rightarrow> bytes" where
  "pad_right bs = bs @ replicate ((32 - length bs mod 32) mod 32) 0"

text \<open>The \<open>n\<close> bytes at \<open>index\<close>, when the buffer holds them.\<close>

definition slice_at :: "bytes \<Rightarrow> int \<Rightarrow> nat \<Rightarrow> bytes option" where
  "slice_at output index n =
     (if 0 \<le> index \<and> nat index + n \<le> length output
      then Some (take n (drop (nat index) output)) else None)"

text \<open>
  Modelled from the spec: \<^verbatim>\<open>Type.requiresLengthPrefix\<close>, which is not in
  \<^verbatim>\<open>method.go\<close>. A type is dynamic if it is \<open>bytes\<close>, \<open>string\<close>, a dynamic array, or
  any array whose element type is dynamic.
\<close>

fun requiresLengthPrefix_spec :: "Type \<Rightarrow> bool" where
  "requiresLengthPrefix_spec (MkType StringTy sz el s) = True"
| "requiresLengthPrefix_spec (MkType BytesTy sz el s) = True"
| "requiresLengthPrefix_spec (MkType SliceTy sz el s) = True"
| "requiresLengthPrefix_spec (MkType ArrayTy sz (Some e) s) = requiresLengthPrefix_spec e"
| "requiresLengthPrefix_spec t = False"

text \<open>
  Modelled from the spec: \<^verbatim>\<open>packNum\<close>, which is not in \<^verbatim>\<open>method.go\<close>, on a Go
  \<^verbatim>\<open>int\<close>. A length prefix or offset is an unsigned 256-bit count.
\<close>

definition packNum_spec :: "int \<Rightarrow> bytes" where
  "packNum_spec n = word32 (nat n)"

subsection \<open>Type.pack\<close>

text \<open>The integer of a \<^verbatim>\<open>*big.Int\<close> and the content of a scalar.\<close>

fun as_int :: "content rvalue \<Rightarrow> int option" where
  "as_int (Ptr pt (Other bt (GoInt n))) = Some n"
| "as_int v = None"

fun as_content :: "content rvalue \<Rightarrow> content option" where
  "as_content (Other bt c) = Some c"
| "as_content v = None"

text \<open>
  Modelled from the spec: \<^verbatim>\<open>Type.pack\<close>, which is not in \<^verbatim>\<open>method.go\<close>, on the
  types that are not arrays: the packers of the word codec. An unsigned integer must fit
  its bit width, a signed one lies in \<open>[-2^(N-1), 2^(N-1) - 1]\<close> and is sign-extended;
  a bool is 31 zero bytes and then 0 or 1; an address is left-padded, fixed bytes
  and hashes are right-padded; \<open>bytes\<close> and \<open>string\<close> are a 32-byte length and the
  padded payload. The spec describes no packer for \<open>function\<close>.
\<close>

definition pack_scalar :: "Type \<Rightarrow> content rvalue \<Rightarrow> error + bytes" where
  "pack_scalar t v =
     (case T t of
        UintTy \<Rightarrow>
          (case as_int v of
             Some n \<Rightarrow>
               if 0 \<le> n \<and> n < 2 ^ nat (Size t) then Inr (word32 (nat n)) else Inl OutOfRange
           | None \<Rightarrow> Inl TypeMismatch)
      | IntTy \<Rightarrow>
          (case as_int v of
             Some n \<Rightarrow>
               if - (2 ^ (nat (Size t) - 1)) \<le> n \<and> n < 2 ^ (nat (Size t) - 1)
               then Inr (word32 (nat (n mod 2 ^ 256))) else Inl OutOfRange
           | None \<Rightarrow> Inl TypeMismatch)
      | BoolTy \<Rightarrow>
          (case as_content v of
             Some (GoBool b) \<Rightarrow> Inr (word32 (if b then 1 else 0))
           | _ \<Rightarrow> Inl TypeMismatch)
      | StringTy \<Rightarrow>
          (case as_content v of
             Some (GoString str) \<Rightarrow> Inr (word32 (length str) @ pad_right (string_bytes str))
           | _ \<Rightarrow> Inl TypeMismatch)
      | BytesTy \<Rightarrow>
          (case as_content v of
             Some (GoBytes bs) \<Rightarrow> Inr (word32 (length bs) @ pad_right bs)
           | _ \<Rightarrow> Inl TypeMismatch)
      | AddressTy \<Rightarrow>
          (case as_content v of
             Some (GoBytes bs) \<Rightarrow>
               if length bs = 20 then Inr (replicate 12 0 @ bs) else Inl TypeMismatch
           | _ \<Rightarrow> Inl TypeMismatch)
      | FixedBytesTy \<Rightarrow>
          (case as_content v of
             Some (GoBytes bs) \<Rightarrow>
               if int (length bs) = Size t \<and> length bs \<le> 32
               then Inr (bs @ replicate (32 - length bs) 0) else Inl TypeMismatch
           | _ \<Rightarrow> Inl TypeMismatch)
      | HashTy \<Rightarrow>
          (case as_content v of
             Some (GoBytes bs) \<Rightarrow>
               if int (length bs) = Size t \<and> length bs \<le> 32
               then Inr (bs @ replicate (32 - length bs) 0) else Inl TypeMismatch
           | _ \<Rightarrow> Inl TypeMismatch)
      | _ \<Rightarrow> Inl Unsupported)"

text \<open>
  Modelled from the spec: \<^verbatim>\<open>Type.pack\<close> on arrays. A fixed array of static elements
  is the concatenation of
  the element encodings, without a length prefix; a dynamic array is a 32-byte
  element count followed by the encodings of the elements. Arrays of dynamic
  elements are left open by the spec and are not supported here.
\<close>

fun typePack_spec :: "Type \<Rightarrow> content rvalue \<Rightarrow> error + bytes" where
  "typePack_spec (MkType ArrayTy sz (Some e) s) v =
     (if requiresLengthPrefix_spec e then Inl Unsupported
      else
        case v of
          Array gt vs \<Rightarrow>
            if int (length vs) = sz
            then
              (case collect (map (typePack_spec e) vs) of
                 Inl err \<Rightarrow> Inl err
               | Inr ps \<Rightarrow> Inr (concat ps))
            else Inl TypeMismatch
        | _ \<Rightarrow> Inl TypeMismatch)"
| "typePack_spec (MkType SliceTy sz (Some e) s) v =
     (if requiresLengthPrefix_spec e then Inl Unsupported
      else
        case v of
          Slice gt vs \<Rightarrow>
            (case collect (map (typePack_spec e) vs) of
               Inl err \<Rightarrow> Inl err
             | Inr ps \<Rightarrow> Inr (word32 (length vs) @ concat ps))
        | _ \<Rightarrow> Inl TypeMismatch)"
| "typePack_spec t v = pack_scalar t v"

subsection \<open>toGoType\<close>

text \<open>
  Modelled from the spec: the Go type of the host value that carries a decoded value
  of an ABI type (big integers, fixed-width byte blobs, strings, arrays of these).
\<close>

fun hostType :: "Type \<Rightarrow> gotype" where
  "hostType (MkType ArrayTy sz (Some e) s) = ArrayOf (nat sz) (hostType e)"
| "hostType (MkType SliceTy sz (Some e) s) = SliceOf (hostType e)"
| "hostType (MkType IntTy sz el s) = PtrTo (Named ''big.Int'')"
| "hostType (MkType UintTy sz el s) = PtrTo (Named ''big.Int'')"
| "hostType (MkType BoolTy sz el s) = Named ''bool''"
| "hostType (MkType StringTy sz el s) = Named ''string''"
| "hostType (MkType BytesTy sz el s) = SliceOf (Named ''uint8'')"
| "hostType (MkType AddressTy sz el s) = Named ''common.Address''"
| "hostType (MkType HashTy sz el s) = Named ''common.Hash''"
| "hostType (MkType FixedBytesTy sz el s) = ArrayOf (nat sz) (Named ''uint8'')"
| "hostType t = NilType"

text \<open>
  Modelled from the spec: the dynamic part of \<^verbatim>\<open>toGoType\<close>, which is not in
  \<^verbatim>\<open>method.go\<close>. For a dynamic type the word in the head is an offset; at
  the offset stands a 32-byte length, followed by the payload. Missing bytes yield a
  truncation error.
\<close>

definition read_dynamic :: "bytes \<Rightarrow> bytes \<Rightarrow> error + bytes" where
  "read_dynamic output w =
     (let offset = int (be_nat w) in
      case slice_at output offset 32 of
        None \<Rightarrow> Inl (Truncated (length output) (offset + 32))
      | Some lw \<Rightarrow>
          (case slice_at output (offset + 32) (be_nat lw) of
             None \<Rightarrow> Inl (Truncated (length output) (offset + 32 + int (be_nat lw)))
           | Some payload \<Rightarrow> Inr payload))"

text \<open>
  Modelled from the spec: \<^verbatim>\<open>toGoType\<close> on the types that are not arrays, given the
  word \<open>w\<close> at the head position: the unpackers, inverse to the packers. The spec
  describes no unpacker for \<open>function\<close>.
\<close>

definition read_scalar :: "Type \<Rightarrow> bytes \<Rightarrow> bytes \<Rightarrow> error + content rvalue" where
  "read_scalar t output w =
     (case T t of
        UintTy \<Rightarrow> Inr (bigInt (int (be_nat w)))
      | IntTy \<Rightarrow>
          Inr (bigInt (if be_nat w < 2 ^ 255 then int (be_nat w) else int (be_nat w) - 2 ^ 256))
      | BoolTy \<Rightarrow>
          (if be_nat w = 0 then Inr (Other (Named ''bool'') (GoBool False))
           else if be_nat w = 1 then Inr (Other (Named ''bool'') (GoBool True))
           else Inl OutOfRange)
      | AddressTy \<Rightarrow> Inr (Other (Named ''common.Address'') (GoBytes (drop 12 w)))
      | FixedBytesTy \<Rightarrow> Inr (Other (hostType t) (GoBytes (take (nat (Size t)) w)))
      | HashTy \<Rightarrow> Inr (Other (Named ''common.Hash'') (GoBytes (take (nat (Size t)) w)))
      | StringTy \<Rightarrow>
          (case read_dynamic output w of
             Inl err \<Rightarrow> Inl err
           | Inr payload \<Rightarrow>
               Inr (Other (Named ''string'') (GoString (map (\<lambda>b. char_of (unat b)) payload))))
      | BytesTy \<Rightarrow>
          (case read_dynamic output w of
             Inl err \<Rightarrow> Inl err
           | Inr payload \<Rightarrow> Inr (Other (SliceOf (Named ''uint8'')) (GoBytes payload)))
      | _ \<Rightarrow> Inl Unsupported)"

text \<open>
  Modelled from the spec: the number of 32-byte words of the direct encoding of a
  static type. A fixed array of static elements is the concatenation of the encodings
  of its elements, so it takes as many words as its elements take together; every
  other static type is one word. A dynamic type has one word in the head, its offset.
\<close>

fun head_words :: "Type \<Rightarrow> nat" where
  "head_words (MkType ArrayTy sz (Some e) s) =
     (if requiresLengthPrefix_spec e then 1 else nat sz * head_words e)"
| "head_words t = 1"

text \<open>
  Modelled from the spec: \<^verbatim>\<open>toGoType\<close>, which is not in \<^verbatim>\<open>method.go\<close>. The buffer
  must hold the word at \<open>index\<close>. A static value is decoded from the head slot or
  slots at \<open>index\<close>; the elements of a fixed array of static elements stand one
  behind the other from \<open>index\<close> on, each in as many words as its type takes; a
  dynamic array is an offset in the head, a count at the offset and the elements from
  the position immediately following the count.
\<close>

fun toGoType_spec :: "int \<Rightarrow> Type \<Rightarrow> bytes \<Rightarrow> error + content rvalue" where
  "toGoType_spec index (MkType ArrayTy sz (Some e) s) output =
     (if requiresLengthPrefix_spec e then Inl Unsupported
      else
        case slice_at output index 32 of
          None \<Rightarrow> Inl (Truncated (length output) (index + 32))
        | Some w \<Rightarrow>
            (case collect (map (\<lambda>k. toGoType_spec
                                       (index + 32 * int (head_words e) * int k) e output)
                            [0..<nat sz]) of
               Inl err \<Rightarrow> Inl err
             | Inr vs \<Rightarrow> Inr (Array (ArrayOf (nat sz) (hostType e)) vs)))"
| "toGoType_spec index (MkType SliceTy sz (Some e) s) output =
     (if requiresLengthPrefix_spec e then Inl Unsupported
      else
        case slice_at output index 32 of
          None \<Rightarrow> Inl (Truncated (length output) (index + 32))
        | Some w \<Rightarrow>
            (let offset = int (be_nat w) in
             case slice_at output offset 32 of
               None \<Rightarrow> Inl (Truncated (length output) (offset + 32))
             | Some cw \<Rightarrow>
                 (case collect (map (\<lambda>k. toGoType_spec
                                       (offset + 32 + 32 * int (head_words e) * int k) e output)
                                 [0..<be_nat cw]) of
                    Inl err \<Rightarrow> Inl err
                  | Inr vs \<Rightarrow> Inr (Slice (SliceOf (hostType e)) vs))))"
| "toGoType_spec index t output =
     (case slice_at output index 32 of
        None \<Rightarrow> Inl (Truncated (length output) (index + 32))
      | Some w \<Rightarrow> read_scalar t output w)"

subsection \<open>Destinations\<close>

text \<open>
  Modelled from the spec: \<^verbatim>\<open>requireUnpackKind\<close>, which is not in \<^verbatim>\<open>method.go\<close>. A
  tuple is decoded into a named record or into an ordered
  sequence; the sequence must already have length at least the arity, otherwise
  \<^emph>\<open>insufficient elements, want arity, got length\<close>; any other destination (a
  key/value mapping among them) fails with a dedicated error. The spec describes no
  effect of the last argument, for which \<^verbatim>\<open>tupleUnpack\<close> always passes \<^verbatim>\<open>false\<close>.
\<close>

definition requireUnpackKind_spec ::
  "'a rvalue \<Rightarrow> Argument list \<Rightarrow> bool \<Rightarrow> error option"
where
  "requireUnpackKind_spec v args flag =
     (case v of
        Struct t fs \<Rightarrow> None
      | Slice t es \<Rightarrow>
          if length es < length args
          then Some (InsufficientElements (length args) (length es)) else None
      | Array t es \<Rightarrow>
          if length es < length args
          then Some (InsufficientElements (length args) (length es)) else None
      | _ \<Rightarrow> Some (CannotUnmarshalTuple (typeOf v)))"

text \<open>
  Modelled from the spec: \<^verbatim>\<open>requireAssignable\<close>, which is not in \<^verbatim>\<open>method.go\<close>.
  An element of a destination sequence must be a mutable
  reference; otherwise \<^emph>\<open>cannot unmarshal X into Y\<close>.
\<close>

definition requireAssignable_spec :: "'a rvalue \<Rightarrow> 'a rvalue \<Rightarrow> error option" where
  "requireAssignable_spec dst src =
     (case dst of
        Ptr t x \<Rightarrow> None
      | Iface t x \<Rightarrow> None
      | _ \<Rightarrow> Some (CannotUnmarshal (typeOf src) (typeOf dst)))"

text \<open>
  Modelled from the spec: \<^verbatim>\<open>set\<close>, which is not in \<^verbatim>\<open>method.go\<close>. The destination
  slot's type must be assignable from the
  decoded value's type, otherwise \<^emph>\<open>cannot unmarshal X into Y\<close>. A slot of the
  value's own type takes the value, an interface slot takes any value, and a pointer
  to a slot is written through.
\<close>

fun set_spec :: "'a rvalue \<Rightarrow> 'a rvalue \<Rightarrow> Argument \<Rightarrow> error + 'a rvalue" where
  "set_spec (Ptr t x) src output =
     (if t = typeOf src then Inr src
      else
        case set_spec x src output of
          Inl err \<Rightarrow> Inl err
        | Inr x' \<Rightarrow> Inr (Ptr t x'))"
| "set_spec (Iface t x) src output = Inr (Iface t src)"
| "set_spec dst src output =
     (if typeOf dst = typeOf src then Inr src
      else Inl (CannotUnmarshal (typeOf src) (typeOf dst)))"

text \<open>
  Modelled from the spec: \<^verbatim>\<open>strings.ToUpper\<close> as the upper-casing of code units; the
  letters \<open>a\<close> to \<open>z\<close> become
  \<open>A\<close> to \<open>Z\<close>, every other code unit is kept.
\<close>

definition upper_char :: "char \<Rightarrow> char" where
  "upper_char c =
     (if 97 \<le> (of_char c :: nat) \<and> (of_char c :: nat) \<le> 122
      then char_of ((of_char c :: nat) - 32) else c)"

definition ToUpper_spec :: "string \<Rightarrow> string" where
  "ToUpper_spec str = map upper_char str"

text \<open>
  The helpers of the spec. The hash function is outside the codec and stays a
  parameter.
\<close>

definition spec_helpers :: "(bytes \<Rightarrow> bytes) \<Rightarrow> content helpers" where
  "spec_helpers keccak =
     \<lparr> typePack = typePack_spec,
       requiresLengthPrefix = requiresLengthPrefix_spec,
       packNum = packNum_spec,
       toGoType = toGoType_spec,
       requireUnpackKind = requireUnpackKind_spec,
       requireAssignable = requireAssignable_spec,
       set_go = set_spec,
       ToUpper = ToUpper_spec,
       Keccak256 = keccak \<rparr>"

subsection \<open>The type parser\<close>

text \<open>
  Modelled from the spec: the errors of the type parser (type.go is not among the
  sources): unknown base name, integer width that is no multiple of 8, bit or byte
  width out of range, malformed brackets.
\<close>

datatype parse_error = UnknownBase | WidthNotMultipleOf8 | WidthOutOfRange | MalformedBrackets

text \<open>
  Modelled from the spec: the decimal numbers \<open>N\<close> and \<open>K\<close> of a type string. A
  number is a non-empty sequence of the digits \<open>0\<close> to \<open>9\<close>; \<open>show_nat\<close> writes a
  number without leading zeros.
\<close>

definition is_digit :: "char \<Rightarrow> bool" where
  "is_digit c = (48 \<le> (of_char c :: nat) \<and> (of_char c :: nat) \<le> 57)"

definition parse_nat :: "string \<Rightarrow> nat option" where
  "parse_nat ds =
     (if ds \<noteq> [] \<and> list_all is_digit ds
      then Some (foldl (\<lambda>n c. 10 * n + ((of_char c :: nat) - 48)) 0 ds) else None)"

function show_nat :: "nat \<Rightarrow> string" where
  "show_nat n =
     (if n < 10 then [char_of (48 + n)] else show_nat (n div 10) @ [char_of (48 + n mod 10)])"
  by pat_completeness auto
termination by (relation "measure id") auto

declare show_nat.simps [simp del]

text \<open>
  Modelled from the spec: the canonical \<open>stringForm\<close>, recomputed from the parsed
  structure by recursive textualization: the element type leftmost, the brackets of
  the outer array last; an integer type always with its bit width, fixed bytes and
  hashes with their byte width. An array kind without an element type has no text.
\<close>

fun stringForm :: "Type \<Rightarrow> string" where
  "stringForm (MkType ArrayTy sz (Some e) s) = stringForm e @ ''['' @ show_nat (nat sz) @ '']''"
| "stringForm (MkType SliceTy sz (Some e) s) = stringForm e @ ''[]''"
| "stringForm (MkType IntTy sz el s) = ''int'' @ show_nat (nat sz)"
| "stringForm (MkType UintTy sz el s) = ''uint'' @ show_nat (nat sz)"
| "stringForm (MkType BoolTy sz el s) = ''bool''"
| "stringForm (MkType StringTy sz el s) = ''string''"
| "stringForm (MkType AddressTy sz el s) = ''address''"
| "stringForm (MkType BytesTy sz el s) = ''bytes''"
| "stringForm (MkType FixedBytesTy sz el s) = ''bytes'' @ show_nat (nat sz)"
| "stringForm (MkType HashTy sz el s) = ''hash'' @ show_nat (nat sz)"
| "stringForm (MkType FunctionTy sz el s) = ''function''"
| "stringForm t = []"

text \<open>
  Modelled from the spec: the type descriptor the parser builds from a kind, a size
  and an element type; its text is the \<open>stringForm\<close> of that structure, not the text
  that was parsed.
\<close>

definition canonical_type :: "kind \<Rightarrow> int \<Rightarrow> Type option \<Rightarrow> Type" where
  "canonical_type k sz el = MkType k sz el (stringForm (MkType k sz el []))"

text \<open>
  Modelled from the spec: the base tokens. \<open>uint<N>\<close> and \<open>int<N>\<close> take a width
  \<open>N\<close> that is a multiple of 8 from 8 to 256, and the bare \<open>uint\<close> and \<open>int\<close> are
  the types of width 256; \<open>bytes<N>\<close> takes a width from 1 to 32; for the
  internal \<open>hash<N>\<close> the spec names no bound; \<open>address\<close>, \<open>bool\<close>,
  \<open>string\<close>, \<open>bytes\<close> and \<open>function\<close> have no size (0).
\<close>

definition strip_prefix :: "string \<Rightarrow> string \<Rightarrow> string option" where
  "strip_prefix p s = (if take (length p) s = p then Some (drop (length p) s) else None)"

definition int_width :: "kind \<Rightarrow> string \<Rightarrow> parse_error + Type" where
  "int_width k ds =
     (case parse_nat ds of
        None \<Rightarrow> Inl UnknownBase
      | Some n \<Rightarrow>
          if n mod 8 \<noteq> 0 then Inl WidthNotMultipleOf8
          else if n < 8 \<or> 256 < n then Inl WidthOutOfRange
          else Inr (canonical_type k (int n) None))"

definition byte_width :: "string \<Rightarrow> parse_error + Type" where
  "byte_width ds =
     (case parse_nat ds of
        None \<Rightarrow> Inl UnknownBase
      | Some n \<Rightarrow>
          if n < 1 \<or> 32 < n then Inl WidthOutOfRange
          else Inr (canonical_type FixedBytesTy (int n) None))"

definition hash_width :: "string \<Rightarrow> parse_error + Type" where
  "hash_width ds =
     (case parse_nat ds of
        None \<Rightarrow> Inl UnknownBase
      | Some n \<Rightarrow> Inr (canonical_type HashTy (int n) None))"

definition parse_base :: "string \<Rightarrow> parse_error + Type" where
  "parse_base s =
     (if s = ''address'' then Inr (canonical_type AddressTy 0 None)
      else if s = ''bool'' then Inr (canonical_type BoolTy 0 None)
      else if s = ''string'' then Inr (canonical_type StringTy 0 None)
      else if s = ''bytes'' then Inr (canonical_type BytesTy 0 None)
      else if s = ''function'' then Inr (canonical_type FunctionTy 0 None)
      else if s = ''uint'' then Inr (canonical_type UintTy 256 None)
      else if s = ''int'' then Inr (canonical_type IntTy 256 None)
      else
        case strip_prefix ''uint'' s of
          Some ds \<Rightarrow> int_width UintTy ds
        | None \<Rightarrow>
            (case strip_prefix ''int'' s of
               Some ds \<Rightarrow> int_width IntTy ds
             | None \<Rightarrow>
                 (case strip_prefix ''bytes'' s of
                    Some ds \<Rightarrow> byte_width ds
                  | None \<Rightarrow>
                      (case strip_prefix ''hash'' s of
                         Some ds \<Rightarrow> hash_width ds
                       | None \<Rightarrow> Inl UnknownBase))))"

text \<open>
  Modelled from the spec: the parser of a type string (\<^verbatim>\<open>NewType\<close>). The trailing
  groups \<open>[K]\<close> and \<open>[]\<close> are scanned from right to left, so \<open>type_of_rev\<close> works on
  the reversed text: the last group wraps the type of the text before it into a fixed
  array of \<open>K \<ge> 1\<close> elements, or into a dynamic array when \<open>K\<close> is omitted; a text
  without a trailing group is a base token.
\<close>

function type_of_rev :: "string \<Rightarrow> parse_error + Type" where
  "type_of_rev [] = parse_base []"
| "type_of_rev (c # r) =
     (if c = CHR '']'' then
        (case dropWhile is_digit r of
           [] \<Rightarrow> Inl MalformedBrackets
         | c' # r' \<Rightarrow>
             if c' = CHR ''['' then
               (case type_of_rev r' of
                  Inl err \<Rightarrow> Inl err
                | Inr inner \<Rightarrow>
                    if takeWhile is_digit r = [] then Inr (canonical_type SliceTy 0 (Some inner))
                    else
                      (case parse_nat (rev (takeWhile is_digit r)) of
                         None \<Rightarrow> Inl MalformedBrackets
                       | Some k \<Rightarrow>
                           if k < 1 then Inl MalformedBrackets
                           else Inr (canonical_type ArrayTy (int k) (Some inner))))
             else Inl MalformedBrackets)
      else parse_base (rev (c # r)))"
  by pat_completeness auto
termination
proof (relation "measure length")
  show "wf (measure length)" by simp
next
  fix c r c' r'
  assume "dropWhile is_digit r = c' # r'"
  then have "length (c' # r') \<le> length r"
    by (metis length_dropWhile_le)
  then show "(r', c # r) \<in> measure length" by simp
qed

definition NewType :: "string \<Rightarrow> parse_error + Type" where
  "NewType s = type_of_rev (rev s)"

section \<open>What the spec says, as definitions\<close>

subsection \<open>The head/tail layout of the tuple encoder\<close>

text \<open>
  The layout in the words of the spec, for a method \<open>m\<close> and the encodings \<open>encs\<close>
  of its arguments: slot \<open>k\<close> is dynamic when its type requires a length prefix; the
  tail so far is the concatenation of the encodings of the dynamic slots before
  \<open>k\<close>; the head slot of a static slot is its encoding, that of a dynamic slot the
  offset \<open>32 * arity + |tail so far|\<close>; the output is the head followed by the tail.
\<close>

definition is_dynamic :: "'a helpers \<Rightarrow> Method \<Rightarrow> nat \<Rightarrow> bool" where
  "is_dynamic h m k = requiresLengthPrefix h (Type (Inputs m ! k))"

definition tail_so_far :: "'a helpers \<Rightarrow> Method \<Rightarrow> bytes list \<Rightarrow> nat \<Rightarrow> bytes" where
  "tail_so_far h m encs k =
     concat (map (\<lambda>i. if is_dynamic h m i then encs ! i else []) [0..<k])"

definition head_slot :: "'a helpers \<Rightarrow> Method \<Rightarrow> bytes list \<Rightarrow> nat \<Rightarrow> bytes" where
  "head_slot h m encs k =
     (if is_dynamic h m k
      then packNum h (32 * int (length (Inputs m)) + int (length (tail_so_far h m encs k)))
      else encs ! k)"

definition head_upto :: "'a helpers \<Rightarrow> Method \<Rightarrow> bytes list \<Rightarrow> nat \<Rightarrow> bytes" where
  "head_upto h m encs k = concat (map (head_slot h m encs) [0..<k])"

definition tuple_encode :: "'a helpers \<Rightarrow> Method \<Rightarrow> bytes list \<Rightarrow> bytes" where
  "tuple_encode h m encs =
     head_upto h m encs (length (Inputs m)) @ tail_so_far h m encs (length (Inputs m))"

text \<open>
  The head with the offsets left open: the encoding of every static slot and, for
  every dynamic slot \<open>k\<close>, the word of an offset \<open>offs k\<close>, in declaration order.
\<close>

definition head_with :: "'a helpers \<Rightarrow> Method \<Rightarrow> bytes list \<Rightarrow> (nat \<Rightarrow> int) \<Rightarrow> bytes" where
  "head_with h m encs offs =
     concat (map (\<lambda>k. if is_dynamic h m k then packNum h (offs k) else encs ! k)
               [0..<length (Inputs m)])"

subsection \<open>The cursor of the tuple decoder\<close>

text \<open>The value of the cursor \<open>j\<close> after the loop has passed the given outputs.\<close>

fun cursor_post :: "Argument list \<Rightarrow> int \<Rightarrow> int" where
  "cursor_post [] j = j"
| "cursor_post (a # as) j =
     cursor_post as (if T (Type a) = ArrayTy then int64 (j + (Size (Type a) - 1)) else j)"

fun cursor_pre :: "Argument list \<Rightarrow> int \<Rightarrow> int" where
  "cursor_pre [] j = j"
| "cursor_pre (a # as) j =
     cursor_pre as (if T (Type a) = ArrayTy then int64 (j + Size (Type a)) else j)"

subsection \<open>The signature\<close>

text \<open>
  The signature in the words of the spec: the name, an opening parenthesis, the
  canonical \<open>stringForm\<close> of each input type with a comma behind each but the last,
  and a closing parenthesis. The base token of a type name is its text before the
  first array suffix.
\<close>

definition comma_separated :: "string list \<Rightarrow> string" where
  "comma_separated xs =
     (if xs = [] then [] else concat (map (\<lambda>x. x @ '','') (butlast xs)) @ last xs)"

definition signature_text :: "Method \<Rightarrow> string" where
  "signature_text m =
     Method.Name m @ ''('' @ comma_separated (map (\<lambda>a. stringForm (Type a)) (Inputs m)) @ '')''"

definition base_token :: "string \<Rightarrow> string" where
  "base_token s = takeWhile (\<lambda>c. c \<noteq> CHR ''['') s"

section \<open>Scenarios\<close>

text \<open>
  The helpers of the spec with a constant function in place of the hash, which no
  scenario below evaluates.
\<close>

definition example_helpers :: "content helpers" where
  "example_helpers = spec_helpers (\<lambda>bs. replicate 32 0)"

definition uint256_t :: Type where
  "uint256_t = MkType UintTy 256 None ''uint256''"

definition string_t :: Type where
  "string_t = MkType StringTy 0 None ''string''"

definition uint256_3_t :: Type where
  "uint256_3_t = MkType ArrayTy 3 (Some uint256_t) ''uint256[3]''"

definition arg :: "string \<Rightarrow> Type \<Rightarrow> Argument" where
  "arg n t = \<lparr> Argument.Name = n, Type = t, Indexed = False \<rparr>"

definition goString :: "string \<Rightarrow> content rvalue" where
  "goString str = Other (Named ''string'') (GoString str)"

text \<open>A method \<^verbatim>\<open>f(string s, uint256 a, string t)\<close> and arguments for it.\<close>

definition method_f :: Method where
  "method_f =
     \<lparr> Method.Name = ''f'', Const = False,
       Inputs = [arg ''s'' string_t, arg ''a'' uint256_t, arg ''t'' string_t],
       Outputs = [] \<rparr>"

definition args_f :: "content rvalue list" where
  "args_f = [goString ''abc'', bigInt 7, goString ''de'']"

definition encs_f :: "bytes list" where
  "encs_f =
     [replicate 31 0 @ [3] @ [0x61, 0x62, 0x63] @ replicate 29 0,
      replicate 31 0 @ [7],
      replicate 31 0 @ [2] @ [0x64, 0x65] @ replicate 30 0]"

text \<open>Go types and values of the test suite.\<close>

definition big_t :: gotype where "big_t = PtrTo (Named ''big.Int'')"

definition iface_t :: gotype where "iface_t = Named ''interface {}''"

definition nil_bigInt :: "content rvalue" where "nil_bigInt = Ptr big_t Invalid"

definition big_array :: "int \<Rightarrow> int \<Rightarrow> int \<Rightarrow> content rvalue" where
  "big_array x y z = Array (ArrayOf 3 big_t) [bigInt x, bigInt y, bigInt z]"

text \<open>
  The event \<^verbatim>\<open>LogStaticArray(uint256[3] indexed a, uint256[3] b, string c)\<close> of the
  test suite: the schema of its non-indexed inputs, the data of the logged event
  \<^verbatim>\<open>LogStaticArray([1,2,3], [4,5,6], "abc")\<close> (\<^verbatim>\<open>staticArrayEventData\<close>), and the
  destination \<^verbatim>\<open>&[3]interface{}{&[3]*big.Int{}, new(string)}\<close> with the array elements
  \<open>b\<close> and the string \<open>c\<close>.
\<close>

definition logStaticArray :: Method where
  "logStaticArray =
     \<lparr> Method.Name = ''LogStaticArray'', Const = False, Inputs = [],
       Outputs = [arg ''b'' uint256_3_t, arg ''c'' string_t] \<rparr>"

definition staticArrayEventData :: bytes where
  "staticArrayEventData =
     replicate 31 0 @ [4] @ replicate 31 0 @ [5] @ replicate 31 0 @ [6]
     @ replicate 31 0 @ [0x80] @ replicate 31 0 @ [3]
     @ [0x61, 0x62, 0x63] @ replicate 29 0"

definition static_array_dest :: "content rvalue \<Rightarrow> content rvalue \<Rightarrow> content rvalue" where
  "static_array_dest b c =
     Ptr (PtrTo (ArrayOf 3 iface_t))
       (Array (ArrayOf 3 iface_t)
          [Iface iface_t (Ptr (PtrTo (ArrayOf 3 big_t)) (Array (ArrayOf 3 big_t) [b, b, b])),
           Iface iface_t (Ptr (PtrTo (Named ''string'')) c),
           Iface iface_t Invalid])"

definition static_array_result :: "content rvalue \<Rightarrow> content rvalue \<Rightarrow> content rvalue" where
  "static_array_result b c =
     Ptr (PtrTo (ArrayOf 3 iface_t))
       (Array (ArrayOf 3 iface_t)
          [Iface iface_t (Ptr (PtrTo (ArrayOf 3 big_t)) b),
           Iface iface_t (Ptr (PtrTo (Named ''string'')) c),
           Iface iface_t Invalid])"

text \<open>
  A method \<^verbatim>\<open>g(uint256[3] a, uint256 b)\<close> that returns its arguments, the arguments
  \<open>([1, 2, 3], 4)\<close>, their encodings, and the destination
  \<^verbatim>\<open>&[]interface{}{&a, &b}\<close> for an array \<open>a\<close> and a \<^verbatim>\<open>*big.Int\<close> \<open>b\<close>.
\<close>

definition method_g :: Method where
  "method_g =
     \<lparr> Method.Name = ''g'', Const = False,
       Inputs = [arg ''a'' uint256_3_t, arg ''b'' uint256_t],
       Outputs = [arg ''a'' uint256_3_t, arg ''b'' uint256_t] \<rparr>"

definition args_g :: "content rvalue list" where
  "args_g = [big_array 1 2 3, bigInt 4]"

definition encs_g :: "bytes list" where
  "encs_g = [replicate 31 0 @ [1] @ replicate 31 0 @ [2] @ replicate 31 0 @ [3],
             replicate 31 0 @ [4]]"

definition data_g :: bytes where
  "data_g = replicate 31 0 @ [1] @ replicate 31 0 @ [2] @ replicate 31 0 @ [3]
            @ replicate 31 0 @ [4]"

definition dest_g :: "content rvalue \<Rightarrow> content rvalue \<Rightarrow> content rvalue" where
  "dest_g a b =
     Ptr (PtrTo (SliceOf iface_t))
       (Slice (SliceOf iface_t)
          [Iface iface_t (Ptr (PtrTo (ArrayOf 3 big_t)) a),
           Iface iface_t (Ptr (PtrTo big_t) b)])"

text \<open>
  A method \<^verbatim>\<open>h(uint256[3] b, string c)\<close> that returns its arguments, and the
  arguments \<open>([4, 5, 6], "abc")\<close>.
\<close>

definition method_h :: Method where
  "method_h =
     \<lparr> Method.Name = ''h'', Const = False,
       Inputs = [arg ''b'' uint256_3_t, arg ''c'' string_t],
       Outputs = [arg ''b'' uint256_3_t, arg ''c'' string_t] \<rparr>"

definition args_h :: "content rvalue list" where
  "args_h = [big_array 4 5 6, goString ''abc'']"

definition encs_h :: "bytes list" where
  "encs_h = [replicate 31 0 @ [4] @ replicate 31 0 @ [5] @ replicate 31 0 @ [6],
             replicate 31 0 @ [3] @ [0x61, 0x62, 0x63] @ replicate 29 0]"

definition data_h :: bytes where
  "data_h =
     replicate 31 0 @ [4] @ replicate 31 0 @ [5] @ replicate 31 0 @ [6]
     @ replicate 31 0 @ [0x40] @ replicate 31 0 @ [3]
     @ [0x61, 0x62, 0x63] @ replicate 29 0"

text \<open>
  A method \<^verbatim>\<open>n(uint256[2][3] a, uint256 b)\<close> that returns its arguments: \<open>a\<close> is an
  array of three arrays of two integers. The arguments
  \<open>([[1, 2], [3, 4], [5, 6]], 7)\<close>, their encodings (the array is the concatenation of
  the encodings of its elements, six words), and the destination
  \<^verbatim>\<open>&[]interface{}{&a, &b}\<close> for an array \<open>a\<close> and a \<^verbatim>\<open>*big.Int\<close> \<open>b\<close>.
\<close>

definition uint256_2_t :: Type where
  "uint256_2_t = MkType ArrayTy 2 (Some uint256_t) ''uint256[2]''"

definition uint256_2_3_t :: Type where
  "uint256_2_3_t = MkType ArrayTy 3 (Some uint256_2_t) ''uint256[2][3]''"

definition big_pair :: "content rvalue \<Rightarrow> content rvalue \<Rightarrow> content rvalue" where
  "big_pair x y = Array (ArrayOf 2 big_t) [x, y]"

definition big_pairs ::
  "content rvalue \<Rightarrow> content rvalue \<Rightarrow> content rvalue \<Rightarrow> content rvalue"
where
  "big_pairs p q r = Array (ArrayOf 3 (ArrayOf 2 big_t)) [p, q, r]"

definition pairs_123456 :: "content rvalue" where
  "pairs_123456 =
     big_pairs (big_pair (bigInt 1) (bigInt 2)) (big_pair (bigInt 3) (bigInt 4))
       (big_pair (bigInt 5) (bigInt 6))"

definition nil_pairs :: "content rvalue" where
  "nil_pairs =
     big_pairs (big_pair nil_bigInt nil_bigInt) (big_pair nil_bigInt nil_bigInt)
       (big_pair nil_bigInt nil_bigInt)"

definition method_n :: Method where
  "method_n =
     \<lparr> Method.Name = ''n'', Const = False,
       Inputs = [arg ''a'' uint256_2_3_t, arg ''b'' uint256_t],
       Outputs = [arg ''a'' uint256_2_3_t, arg ''b'' uint256_t] \<rparr>"

definition args_n :: "content rvalue list" where
  "args_n = [pairs_123456, bigInt 7]"

definition encs_n :: "bytes list" where
  "encs_n = [replicate 31 0 @ [1] @ replicate 31 0 @ [2] @ replicate 31 0 @ [3]
             @ replicate 31 0 @ [4] @ replicate 31 0 @ [5] @ replicate 31 0 @ [6],
             replicate 31 0 @ [7]]"

definition data_n :: bytes where
  "data_n = replicate 31 0 @ [1] @ replicate 31 0 @ [2] @ replicate 31 0 @ [3]
            @ replicate 31 0 @ [4] @ replicate 31 0 @ [5] @ replicate 31 0 @ [6]
            @ replicate 31 0 @ [7]"

definition dest_n :: "content rvalue \<Rightarrow> content rvalue \<Rightarrow> content rvalue" where
  "dest_n a b =
     Ptr (PtrTo (SliceOf iface_t))
       (Slice (SliceOf iface_t)
          [Iface iface_t (Ptr (PtrTo (ArrayOf 3 (ArrayOf 2 big_t))) a),
           Iface iface_t (Ptr (PtrTo big_t) b)])"

text \<open>
  The struct \<^verbatim>\<open>EventTransfer{Value *big.Int}\<close> of the test suite, the data of the
  \<^verbatim>\<open>Transfer\<close> event (\<^verbatim>\<open>transferData1\<close>, the value 1000000), and a method with a
  named and an unnamed output.
\<close>

definition transfer_t :: gotype where "transfer_t = Named ''abi.EventTransfer''"

definition transfer_struct :: "content rvalue \<Rightarrow> content rvalue" where
  "transfer_struct v = Struct transfer_t [(''Value'', v)]"

definition transfer_dest :: "content rvalue \<Rightarrow> content rvalue" where
  "transfer_dest v = Ptr (PtrTo transfer_t) (transfer_struct v)"

definition transferData1 :: bytes where
  "transferData1 = replicate 29 0 @ [0x0f, 0x42, 0x40]"

definition method_unnamed :: Method where
  "method_unnamed =
     \<lparr> Method.Name = ''u'', Const = True, Inputs = [],
       Outputs = [arg ''value'' uint256_t, arg [] uint256_t] \<rparr>"

text \<open>
  A method whose second output \<open>memo\<close> has a name that no field of
  \<^verbatim>\<open>EventTransfer\<close> carries.
\<close>

definition method_unmatched :: Method where
  "method_unmatched =
     \<lparr> Method.Name = ''w'', Const = True, Inputs = [],
       Outputs = [arg ''value'' uint256_t, arg ''memo'' uint256_t] \<rparr>"

definition data_two :: bytes where
  "data_two = transferData1 @ replicate 31 0 @ [5]"

text \<open>
  The event \<^verbatim>\<open>Pledge(address who, uint128 wad, bytes3 currency)\<close> of the test suite
  with its data (\<^verbatim>\<open>pledgeData1\<close>), and the elements of the too short destination
  \<^verbatim>\<open>&[]interface{}{common.Address{}, new(big.Int)}\<close>.
\<close>

definition address_t :: Type where "address_t = MkType AddressTy 20 None ''address''"

definition uint128_t :: Type where "uint128_t = MkType UintTy 128 None ''uint128''"

definition bytes3_t :: Type where "bytes3_t = MkType FixedBytesTy 3 None ''bytes3''"

definition pledge :: Method where
  "pledge =
     \<lparr> Method.Name = ''Pledge'', Const = False, Inputs = [],
       Outputs = [arg ''who'' address_t, arg ''wad'' uint128_t, arg ''currency'' bytes3_t] \<rparr>"

definition pledgeData1 :: bytes where
  "pledgeData1 =
     replicate 12 0
     @ [0x00, 0xce, 0x0d, 0x46, 0xd9, 0x24, 0xcc, 0x84, 0x37, 0xc8,
        0x06, 0x72, 0x14, 0x96, 0x59, 0x9f, 0xc3, 0xff, 0xa2, 0x68]
     @ replicate 26 0 @ [0x02, 0x04, 0x89, 0xe8, 0x00, 0x00]
     @ [0x75, 0x73, 0x64] @ replicate 29 0"

definition short_list :: "content rvalue list" where
  "short_list =
     [Iface iface_t (Other (Named ''common.Address'') (GoBytes (replicate 20 0))),
      Iface iface_t (bigInt 0)]"

text \<open>
  The example of the comment on \<^verbatim>\<open>Sig\<close>: \<^verbatim>\<open>function foo(uint32 a, int b)\<close>, with
  the type descriptors of \<open>uint32\<close> and of \<open>int\<close>, which is the integer type of
  width 256.
\<close>

definition uint32_t :: Type where "uint32_t = MkType UintTy 32 None ''uint32''"

definition int256_t :: Type where "int256_t = MkType IntTy 256 None ''int256''"

definition method_foo :: Method where
  "method_foo =
     \<lparr> Method.Name = ''foo'', Const = False,
       Inputs = [arg ''a'' uint32_t, arg ''b'' int256_t], Outputs = [] \<rparr>"

section \<open>Properties of Method.pack\<close>

lemma replicate_num: "replicate (numeral k) x = x # replicate (pred_numeral k) x"
  by (simp add: numeral_eq_Suc)

lemma be_bytes_num:
  "be_bytes (numeral k) n = be_bytes (pred_numeral k) (n div 256) @ [of_nat n]"
proof -
  have "be_bytes (Suc (pred_numeral k)) n = be_bytes (pred_numeral k) (n div 256) @ [of_nat n]"
    by (rule be_bytes.simps)
  then show ?thesis by (simp only: numeral_eq_Suc[of k, symmetric])
qed

lemma tail_so_far_Suc:
  "tail_so_far h m encs (Suc k) =
     tail_so_far h m encs k @ (if is_dynamic h m k then encs ! k else [])"
  by (simp add: tail_so_far_def)

lemma head_upto_Suc: "head_upto h m encs (Suc k) = head_upto h m encs k @ head_slot h m encs k"
  by (simp add: head_upto_def)

lemma pack_loop_encode:
  assumes len: "length args = length (Inputs m)"
    and encs: "\<forall>k<length args. typePack h (Type (Inputs m ! k)) (args ! k) = Inr (encs ! k)"
  shows "i \<le> length args \<Longrightarrow>
     pack_loop h m i (drop i args) (head_upto h m encs i) (tail_so_far h m encs i)
       = Ok (head_upto h m encs (length args), tail_so_far h m encs (length args))"
proof (induction "length args - i" arbitrary: i)
  case 0
  then show ?case by simp
next
  case (Suc d)
  then have lt: "i < length args" by simp
  then have dr: "drop i args = args ! i # drop (Suc i) args"
    by (simp add: Cons_nth_drop_Suc)
  have enc: "typePack h (Type (Inputs m ! i)) (args ! i) = Inr (encs ! i)"
    using encs lt by simp
  have ih: "pack_loop h m (Suc i) (drop (Suc i) args) (head_upto h m encs (Suc i))
              (tail_so_far h m encs (Suc i))
            = Ok (head_upto h m encs (length args), tail_so_far h m encs (length args))"
    using Suc.hyps(1)[of "Suc i"] Suc.hyps(2) lt by simp
  show ?case
  proof (cases "is_dynamic h m i")
    case True
    then show ?thesis
      using ih lt len enc
      by (simp add: dr head_upto_Suc tail_so_far_Suc head_slot_def is_dynamic_def[symmetric]
            mult.commute)
  next
    case False
    then show ?thesis
      using ih lt len enc
      by (simp add: dr head_upto_Suc tail_so_far_Suc head_slot_def is_dynamic_def[symmetric])
  qed
qed

lemma length_head_upto:
  assumes "\<forall>k<n. \<not> is_dynamic h m k \<longrightarrow> length (encs ! k) = 32"
    and "\<forall>x. length (packNum h x) = 32"
  shows "length (head_upto h m encs n) = 32 * n"
  using assms(1)
proof (induction n)
  case 0
  then show ?case by (simp add: head_upto_def)
next
  case (Suc n)
  then have "length (head_upto h m encs n) = 32 * n" by simp
  moreover have "length (head_slot h m encs n) = 32"
    using Suc.prems assms(2) by (simp add: head_slot_def)
  ultimately show ?case by (simp add: head_upto_Suc)
qed

lemma pack_loop_outcome:
  "i + length rest = length (Inputs m) \<Longrightarrow>
     (\<exists>r. pack_loop h m i rest ret var = Ok r)
     \<or> (\<exists>k<length rest. \<exists>err.
           typePack h (Type (Inputs m ! (i + k))) (rest ! k) = Inl err
         \<and> (\<forall>k'<k. \<exists>e. typePack h (Type (Inputs m ! (i + k'))) (rest ! k') = Inr e)
         \<and> pack_loop h m i rest ret var = Err (PackFailed (Method.Name m) err))"
proof (induction rest arbitrary: i ret var)
  case Nil
  then show ?case by simp
next
  case (Cons a rest)
  then have lt: "i < length (Inputs m)" by simp
  show ?case
  proof (cases "typePack h (Type (Inputs m ! i)) a")
    case (Inl err)
    then have "pack_loop h m i (a # rest) ret var = Err (PackFailed (Method.Name m) err)"
      using lt by simp
    with Inl show ?thesis by (intro disjI2 exI[of _ 0]) simp
  next
    case (Inr packed)
    obtain ret' var' where step:
      "pack_loop h m i (a # rest) ret var = pack_loop h m (Suc i) rest ret' var'"
      using Inr lt by (cases "requiresLengthPrefix h (Type (Inputs m ! i))") (simp_all add: Let_def)
    have "Suc i + length rest = length (Inputs m)" using Cons.prems by simp
    from Cons.IH[OF this, of ret' var']
    show ?thesis
    proof
      assume "\<exists>r. pack_loop h m (Suc i) rest ret' var' = Ok r"
      then show ?thesis using step by simp
    next
      assume "\<exists>k<length rest. \<exists>err.
           typePack h (Type (Inputs m ! (Suc i + k))) (rest ! k) = Inl err
         \<and> (\<forall>k'<k. \<exists>e. typePack h (Type (Inputs m ! (Suc i + k'))) (rest ! k') = Inr e)
         \<and> pack_loop h m (Suc i) rest ret' var' = Err (PackFailed (Method.Name m) err)"
      then obtain k err where k: "k < length rest"
        "typePack h (Type (Inputs m ! (Suc i + k))) (rest ! k) = Inl err"
        "\<forall>k'<k. \<exists>e. typePack h (Type (Inputs m ! (Suc i + k'))) (rest ! k') = Inr e"
        "pack_loop h m (Suc i) rest ret' var' = Err (PackFailed (Method.Name m) err)"
        by blast
      have prev: "\<forall>k'<Suc k. \<exists>e. typePack h (Type (Inputs m ! (i + k'))) ((a # rest) ! k') = Inr e"
      proof (intro allI impI)
        fix k' assume "k' < Suc k"
        then show "\<exists>e. typePack h (Type (Inputs m ! (i + k'))) ((a # rest) ! k') = Inr e"
          using Inr k(3) by (cases k') auto
      qed
      show ?thesis
        apply (intro disjI2 exI[of _ "Suc k"] exI[of _ err])
        using k(1) k(2) k(4) prev step by simp
    qed
  qed
qed

lemma pack_layout_aux:
  assumes "length args = length (Inputs m)"
    and "\<forall>k<length args. typePack h (Type (Inputs m ! k)) (args ! k) = Inr (encs ! k)"
  shows "pack h m args = Ok (tuple_encode h m encs)"
proof -
  have "pack_loop h m 0 (drop 0 args) (head_upto h m encs 0) (tail_so_far h m encs 0)
          = Ok (head_upto h m encs (length args), tail_so_far h m encs (length args))"
    using pack_loop_encode[OF assms(1) assms(2), of 0] by simp
  then have "pack_loop h m 0 args [] []
          = Ok (head_upto h m encs (length args), tail_so_far h m encs (length args))"
    by (simp add: head_upto_def tail_so_far_def)
  then show ?thesis
    using assms(1) by (simp add: pack_def tuple_encode_def)
qed

section \<open>Evaluating the scenarios\<close>

text \<open>
  Rewrite rules that evaluate the helpers of the spec on concrete data. The data
  are kept folded; every decoding step is a lemma of its own.
\<close>

lemmas scenario_defs =
  example_helpers_def spec_helpers_def uint256_t_def string_t_def uint256_3_t_def arg_def
  goString_def bigInt_def

lemmas codec_defs =
  pack_scalar_def word32_def pad_right_def string_bytes_def packNum_spec_def
  be_bytes_num replicate_num

lemma char_of_byte:
  "char_of (numeral k :: nat) =
     Char (odd (numeral k :: nat)) (bit (numeral k :: nat) 1) (bit (numeral k :: nat) 2)
       (bit (numeral k :: nat) 3) (bit (numeral k :: nat) 4) (bit (numeral k :: nat) 5)
       (bit (numeral k :: nat) 6) (bit (numeral k :: nat) 7)"
  by (simp add: char_of_def bit_0)

lemma helpers_simps:
  "toGoType example_helpers = toGoType_spec"
  "typePack example_helpers = typePack_spec"
  "requiresLengthPrefix example_helpers = requiresLengthPrefix_spec"
  "packNum example_helpers = packNum_spec"
  "requireUnpackKind example_helpers = requireUnpackKind_spec"
  "requireAssignable example_helpers = requireAssignable_spec"
  "set_go example_helpers = set_spec"
  "ToUpper example_helpers = ToUpper_spec"
  by (simp_all add: example_helpers_def spec_helpers_def)

lemma type_simps:
  "T uint256_3_t = ArrayTy" "Size uint256_3_t = 3"
  "T string_t = StringTy" "T uint256_t = UintTy"
  "Type (arg n t) = t" "Argument.Name (arg n t) = n"
  by (simp_all add: uint256_3_t_def string_t_def uint256_t_def arg_def)

lemmas word_defs =
  uint256_t_def string_t_def uint256_3_t_def bigInt_def goString_def big_t_def big_array_def
  slice_at_def read_scalar_def read_dynamic_def be_nat_def char_of_byte bit_0 replicate_num
  upt_conv_Cons

lemmas unpack_defs =
  int64_def Let_def requireUnpackKind_spec_def requireAssignable_spec_def assign_output_def
  set_index_def helpers_simps type_simps

lemmas pack_eval =
  helpers_simps type_simps word32_def pad_right_def string_bytes_def
  packNum_spec_def pack_scalar_def be_bytes_num replicate_num
  uint256_t_def string_t_def uint256_3_t_def bigInt_def goString_def big_t_def big_array_def

lemmas encode_eval =
  tuple_encode_def head_upto_def tail_so_far_def head_slot_def is_dynamic_def pack_eval

lemma length_be_bytes: "length (be_bytes k n) = k"
  by (induction k arbitrary: n) simp_all

lemma less_2_cases: "k < length [a, b] \<Longrightarrow> k = 0 \<or> k = 1"
  by (cases k) auto

lemma less_3_cases: "k < length [a, b, c] \<Longrightarrow> k = 0 \<or> k = 1 \<or> k = 2"
  by (cases k) (auto simp: less_Suc_eq)

lemma typePack_f:
  "\<forall>k<length args_f.
     typePack example_helpers (Type (Inputs method_f ! k)) (args_f ! k) = Inr (encs_f ! k)"
proof (intro allI impI)
  fix k assume "k < length args_f"
  then have k: "k = 0 \<or> k = 1 \<or> k = 2"
    unfolding args_f_def by (rule less_3_cases)
  have e0: "typePack example_helpers (Type (Inputs method_f ! 0)) (args_f ! 0) = Inr (encs_f ! 0)"
    by (simp add: method_f_def args_f_def encs_f_def scenario_defs codec_defs)
  have e1: "typePack example_helpers (Type (Inputs method_f ! 1)) (args_f ! 1) = Inr (encs_f ! 1)"
    by (simp add: method_f_def args_f_def encs_f_def scenario_defs codec_defs)
  have e2: "typePack example_helpers (Type (Inputs method_f ! 2)) (args_f ! 2) = Inr (encs_f ! 2)"
    by (simp add: method_f_def args_f_def encs_f_def scenario_defs codec_defs)
  from k e0 e1 e2
  show "typePack example_helpers (Type (Inputs method_f ! k)) (args_f ! k) = Inr (encs_f ! k)"
    by blast
qed

lemma static_f:
  "\<forall>k<length args_f. \<not> is_dynamic example_helpers method_f k \<longrightarrow> length (encs_f ! k) = 32"
proof (intro allI impI)
  fix k assume "k < length args_f" and st: "\<not> is_dynamic example_helpers method_f k"
  then have k: "k = 0 \<or> k = 1 \<or> k = 2"
    unfolding args_f_def by (intro less_3_cases)
  have d0: "is_dynamic example_helpers method_f 0"
    by (simp add: is_dynamic_def method_f_def scenario_defs)
  have d2: "is_dynamic example_helpers method_f 2"
    by (simp add: is_dynamic_def method_f_def scenario_defs)
  have l1: "length (encs_f ! 1) = 32"
    by (simp add: encs_f_def)
  from k st d0 d2 l1 show "length (encs_f ! k) = 32" by blast
qed

lemma typePack_h:
  "\<forall>k<length args_h.
     typePack example_helpers (Type (Inputs method_h ! k)) (args_h ! k) = Inr (encs_h ! k)"
proof (intro allI impI)
  fix k assume "k < length args_h"
  then have k: "k = 0 \<or> k = 1"
    unfolding args_h_def by (rule less_2_cases)
  have e0: "typePack example_helpers (Type (Inputs method_h ! 0)) (args_h ! 0) = Inr (encs_h ! 0)"
    by (simp add: method_h_def args_h_def encs_h_def pack_eval)
  have e1: "typePack example_helpers (Type (Inputs method_h ! 1)) (args_h ! 1) = Inr (encs_h ! 1)"
    by (simp add: method_h_def args_h_def encs_h_def pack_eval)
  from k e0 e1
  show "typePack example_helpers (Type (Inputs method_h ! k)) (args_h ! k) = Inr (encs_h ! k)"
    by blast
qed

lemma pack_h: "pack example_helpers method_h args_h = Ok data_h"
proof -
  have "length args_h = length (Inputs method_h)"
    by (simp add: args_h_def method_h_def)
  from pack_layout_aux[OF this typePack_h]
  show ?thesis
    by (simp add: method_h_def encs_h_def data_h_def encode_eval)
qed

lemma head_upto_head_with:
  "head_upto h m encs (length (Inputs m))
     = head_with h m encs
         (\<lambda>k. 32 * int (length (Inputs m)) + int (length (tail_so_far h m encs k)))"
  by (simp add: head_upto_def head_with_def head_slot_def cong: map_cong)

text \<open>
  C3, as stated, fails for a schema with a fixed array among its static inputs. For
  \<^verbatim>\<open>h(uint256[3] b, string c)\<close> and \<open>([4, 5, 6], "abc")\<close> the static slot \<open>b\<close>
  contributes its direct encoding of three words and the dynamic slot \<open>c\<close> the word
  of the offset 64: the head that \<^verbatim>\<open>pack\<close> emits is 128 bytes long, and
  \<open>32 * arity\<close> is 64.
\<close>

theorem pack_head_longer_than_arity_words:
  "typePack example_helpers (Type (Inputs method_h ! 0)) (args_h ! 0) = Inr (encs_h ! 0)
   \<and> typePack example_helpers (Type (Inputs method_h ! 1)) (args_h ! 1) = Inr (encs_h ! 1)
   \<and> requiresLengthPrefix example_helpers (Type (Inputs method_h ! 0)) = False
   \<and> requiresLengthPrefix example_helpers (Type (Inputs method_h ! 1)) = True
   \<and> pack example_helpers method_h args_h
       = Ok ((encs_h ! 0 @ packNum example_helpers 64) @ encs_h ! 1)
   \<and> length (encs_h ! 0 @ packNum example_helpers 64) = 128
   \<and> 32 * length (Inputs method_h) = 64"
proof -
  have e0: "typePack example_helpers (Type (Inputs method_h ! 0)) (args_h ! 0) = Inr (encs_h ! 0)"
    by (simp add: method_h_def args_h_def encs_h_def pack_eval)
  have e1: "typePack example_helpers (Type (Inputs method_h ! 1)) (args_h ! 1) = Inr (encs_h ! 1)"
    by (simp add: method_h_def args_h_def encs_h_def pack_eval)
  have d0: "requiresLengthPrefix example_helpers (Type (Inputs method_h ! 0)) = False"
    by (simp add: method_h_def pack_eval)
  have d1: "requiresLengthPrefix example_helpers (Type (Inputs method_h ! 1)) = True"
    by (simp add: method_h_def pack_eval)
  have p: "(encs_h ! 0 @ packNum example_helpers 64) @ encs_h ! 1 = data_h"
    by (simp add: encs_h_def data_h_def pack_eval)
  have l: "length (encs_h ! 0 @ packNum example_helpers 64) = 128"
    by (simp add: encs_h_def helpers_simps packNum_spec_def word32_def length_be_bytes)
  have n: "32 * length (Inputs method_h) = 64"
    by (simp add: method_h_def)
  from e0 e1 d0 d1 l n pack_h p show ?thesis by simp
qed

text \<open>
  C3, amended. For a method \<open>m\<close> and as many arguments as it has inputs, each of
  which \<^verbatim>\<open>Type.pack\<close> encodes (argument \<open>k\<close> as \<open>encs ! k\<close>), \<^verbatim>\<open>pack\<close> returns the
  head followed by the tail: the head holds, in declaration order, the encoding of
  every static slot and, for every slot that requires a length prefix, the word
  \<^verbatim>\<open>packNum\<close> makes of an offset; the tail holds the encodings of the dynamic slots
  in slot order. Whenever every static encoding and every \<^verbatim>\<open>packNum\<close> word is 32
  bytes long, the head is \<open>H = 32 * arity\<close> bytes long and the offset of a dynamic
  slot is \<open>H\<close> plus the number of tail bytes accumulated so far.
\<close>

theorem pack_head_tail_layout:
  assumes "length args = length (Inputs m)"
    and "length encs = length args"
    and "\<forall>k<length args. typePack h (Type (Inputs m ! k)) (args ! k) = Inr (encs ! k)"
  shows "(\<exists>offs. pack h m args
            = Ok (head_with h m encs offs @ tail_so_far h m encs (length (Inputs m))))
     \<and> ((\<forall>k<length args. \<not> is_dynamic h m k \<longrightarrow> length (encs ! k) = 32)
          \<and> (\<forall>x. length (packNum h x) = 32)
        \<longrightarrow> pack h m args = Ok (tuple_encode h m encs)
          \<and> length (head_upto h m encs (length (Inputs m))) = 32 * length (Inputs m))"
proof -
  have p: "pack h m args = Ok (tuple_encode h m encs)"
    using assms(1) assms(3) by (rule pack_layout_aux)
  then have "pack h m args
      = Ok (head_with h m encs
              (\<lambda>k. 32 * int (length (Inputs m)) + int (length (tail_so_far h m encs k)))
            @ tail_so_far h m encs (length (Inputs m)))"
    by (simp only: tuple_encode_def head_upto_head_with)
  then have a: "\<exists>offs. pack h m args
            = Ok (head_with h m encs offs @ tail_so_far h m encs (length (Inputs m)))"
    by blast
  have b: "(\<forall>k<length args. \<not> is_dynamic h m k \<longrightarrow> length (encs ! k) = 32)
          \<and> (\<forall>x. length (packNum h x) = 32)
        \<longrightarrow> length (head_upto h m encs (length (Inputs m))) = 32 * length (Inputs m)"
    using length_head_upto[of "length (Inputs m)" h m encs] assms(1) by simp
  from a b p show ?thesis by blast
qed

theorem pack_head_tail_layout_witness:
  "length args_f = length (Inputs method_f)
   \<and> pack example_helpers method_f args_f =
       Ok (replicate 31 0 @ [96] @ replicate 31 0 @ [7] @ replicate 31 0 @ [160]
           @ replicate 31 0 @ [3] @ [0x61, 0x62, 0x63] @ replicate 29 0
           @ replicate 31 0 @ [2] @ [0x64, 0x65] @ replicate 30 0)
   \<and> length (head_upto example_helpers method_f encs_f (length (Inputs method_f))) = 96"
proof -
  have l1: "length args_f = length (Inputs method_f)"
    by (simp add: args_f_def method_f_def)
  have l2: "length encs_f = length args_f"
    by (simp add: args_f_def encs_f_def)
  have enc: "tuple_encode example_helpers method_f encs_f =
       replicate 31 0 @ [96] @ replicate 31 0 @ [7] @ replicate 31 0 @ [160]
           @ replicate 31 0 @ [3] @ [0x61, 0x62, 0x63] @ replicate 29 0
           @ replicate 31 0 @ [2] @ [0x64, 0x65] @ replicate 30 0"
    by (simp add: tuple_encode_def head_upto_def tail_so_far_def head_slot_def is_dynamic_def
          method_f_def encs_f_def scenario_defs codec_defs)
  have pn: "\<forall>x. length (packNum example_helpers x) = 32"
    by (simp add: scenario_defs packNum_spec_def word32_def length_be_bytes)
  have n: "length (Inputs method_f) = 3"
    by (simp add: method_f_def)
  have "pack example_helpers method_f args_f = Ok (tuple_encode example_helpers method_f encs_f)"
    and "length (head_upto example_helpers method_f encs_f (length (Inputs method_f)))
           = 32 * length (Inputs method_f)"
    using pack_head_tail_layout[OF l1 l2 typePack_f] static_f pn by blast+
  then show ?thesis using l1 enc n by simp
qed

text \<open>
  C8. \<^verbatim>\<open>pack\<close> returns the arity-mismatch error, and with it no bytes, exactly when
  the number of arguments differs from the number of declared inputs. When the
  numbers agree it goes through the arguments: it returns bytes, or the error of
  the first argument that \<^verbatim>\<open>Type.pack\<close> rejects, under the name of the method.
\<close>

theorem pack_arity_mismatch:
  "(pack h m args = Err (ArgCountMismatch (length args) (length (Inputs m))))
      = (length args \<noteq> length (Inputs m))
   \<and> ((\<exists>a b. pack h m args = Err (ArgCountMismatch a b)) = (length args \<noteq> length (Inputs m)))
   \<and> (length args = length (Inputs m) \<longrightarrow>
        (\<exists>bs. pack h m args = Ok bs)
        \<or> (\<exists>k<length args. \<exists>err.
              typePack h (Type (Inputs m ! k)) (args ! k) = Inl err
            \<and> (\<forall>k'<k. \<exists>e. typePack h (Type (Inputs m ! k')) (args ! k') = Inr e)
            \<and> pack h m args = Err (PackFailed (Method.Name m) err)))"
proof (cases "length args = length (Inputs m)")
  case False
  then show ?thesis by (simp add: pack_def)
next
  case True
  then have "0 + length args = length (Inputs m)" by simp
  from pack_loop_outcome[OF this, of h "[]" "[]"]
  have out: "(\<exists>bs. pack h m args = Ok bs)
        \<or> (\<exists>k<length args. \<exists>err.
              typePack h (Type (Inputs m ! k)) (args ! k) = Inl err
            \<and> (\<forall>k'<k. \<exists>e. typePack h (Type (Inputs m ! k')) (args ! k') = Inr e)
            \<and> pack h m args = Err (PackFailed (Method.Name m) err))"
    using True by (auto simp: pack_def split: prod.splits)
  then have "\<not> (\<exists>a b. pack h m args = Err (ArgCountMismatch a b))" by auto
  with out True show ?thesis by auto
qed

theorem pack_arity_mismatch_witness:
  "length [bigInt 7] \<noteq> length (Inputs method_f)
   \<and> pack example_helpers method_f [bigInt 7] = Err (ArgCountMismatch 1 3)"
  using pack_arity_mismatch[of example_helpers method_f "[bigInt 7]"]
  by (simp add: method_f_def)

section \<open>Properties of Method.tupleUnpack and Method.singleUnpack\<close>

subsection \<open>The head cursor\<close>

lemma unpack_loop_post_append:
  "unpack_loop_post h (xs @ ys) i j output dst =
     (case unpack_loop_post h xs i j output dst of
        (dst', Ok u) \<Rightarrow> unpack_loop_post h ys (i + length xs) (cursor_post xs j) output dst'
      | (dst', Err err) \<Rightarrow> (dst', Err err)
      | (dst', Panic p) \<Rightarrow> (dst', Panic p))"
proof (induction xs arbitrary: i j dst)
  case Nil
  then show ?case by simp
next
  case (Cons a xs)
  show ?case
  proof (cases "toGoType h (int64 ((int i + j) * 32)) (Type a) output")
    case (Inl err)
    then show ?thesis by simp
  next
    case (Inr v)
    obtain dst' r where ao: "assign_output h a v i dst = (dst', r)"
      by (cases "assign_output h a v i dst")
    show ?thesis
      using Inr ao Cons.IH by (cases r) (simp_all add: Let_def)
  qed
qed

lemma unpack_loop_pre_append:
  "unpack_loop_pre h (xs @ ys) i j output dst =
     (case unpack_loop_pre h xs i j output dst of
        (dst', Ok u) \<Rightarrow> unpack_loop_pre h ys (i + length xs) (cursor_pre xs j) output dst'
      | (dst', Err err) \<Rightarrow> (dst', Err err)
      | (dst', Panic p) \<Rightarrow> (dst', Panic p))"
proof (induction xs arbitrary: i j dst)
  case Nil
  then show ?case by simp
next
  case (Cons a xs)
  let ?j' = "if T (Type a) = ArrayTy then int64 (j + Size (Type a)) else j"
  show ?case
  proof (cases "toGoType h (int64 ((int i + ?j') * 32)) (Type a) output")
    case (Inl err)
    then show ?thesis by (simp add: Let_def)
  next
    case (Inr v)
    obtain dst' r where ao: "assign_output h a v i dst = (dst', r)"
      by (cases "assign_output h a v i dst")
    show ?thesis
      using Inr ao Cons.IH by (cases r) (simp_all add: Let_def)
  qed
qed

lemma cursor_pre_snoc:
  "cursor_pre (xs @ [a]) j =
     (if T (Type a) = ArrayTy then int64 (cursor_pre xs j + Size (Type a)) else cursor_pre xs j)"
  by (induction xs arbitrary: j) simp_all

subsection \<open>The struct case\<close>

lemma set_fields_empty_name:
  "Argument.Name output = [] \<Longrightarrow> fs \<noteq> [] \<Longrightarrow>
     set_fields h output v fs = (fs, Panic SliceBoundsOutOfRange)"
  by (cases fs) (auto simp: capitalised_def)

lemma set_fields_frame:
  "set_fields h output v fs = (fs', r) \<Longrightarrow>
     map fst fs' = map fst fs
     \<and> (\<forall>k<length fs. capitalised h (Argument.Name output) \<noteq> Some (fst (fs ! k))
            \<longrightarrow> fs' ! k = fs ! k)"
proof (induction fs arbitrary: fs' r)
  case Nil
  then show ?case by simp
next
  case (Cons f fs)
  obtain fname fval where f: "f = (fname, fval)" by (cases f)
  show ?case
  proof (cases "capitalised h (Argument.Name output)")
    case None
    then show ?thesis using Cons.prems f by simp
  next
    case (Some cname)
    obtain fs1 r1 where rec: "set_fields h output v fs = (fs1, r1)"
      by (cases "set_fields h output v fs")
    note ih = Cons.IH[OF rec]
    show ?thesis
    proof (cases "fname = cname")
      case False
      then have "fs' = (fname, fval) # fs1" using Cons.prems f Some rec by simp
      then show ?thesis using ih f Some by (auto simp: nth_Cons split: nat.splits)
    next
      case True
      show ?thesis
      proof (cases "set_go h fval v output")
        case (Inl err)
        then show ?thesis using Cons.prems f Some True by simp
      next
        case (Inr fval')
        then have "fs' = (fname, fval') # fs1" using Cons.prems f Some True rec by simp
        then show ?thesis using ih f Some True by (auto simp: nth_Cons split: nat.splits)
      qed
    qed
  qed
qed

lemma unpack_loop_pre_struct:
  "unpack_loop_pre h outs i j output (Struct t fs) = (dst', r) \<Longrightarrow>
     \<exists>fs'. dst' = Struct t fs' \<and> map fst fs' = map fst fs
       \<and> (\<forall>k<length fs. (\<forall>a\<in>set outs. capitalised h (Argument.Name a) \<noteq> Some (fst (fs ! k)))
              \<longrightarrow> fs' ! k = fs ! k)"
proof (induction outs arbitrary: i j fs dst' r)
  case Nil
  then show ?case by auto
next
  case (Cons a outs)
  let ?j' = "if T (Type a) = ArrayTy then int64 (j + Size (Type a)) else j"
  show ?case
  proof (cases "toGoType h (int64 ((int i + ?j') * 32)) (Type a) output")
    case (Inl err)
    then have "dst' = Struct t fs" using Cons.prems by (simp add: Let_def)
    then show ?thesis by auto
  next
    case (Inr v)
    obtain fs1 r1 where sf: "set_fields h a v fs = (fs1, r1)"
      by (cases "set_fields h a v fs")
    note fr = set_fields_frame[OF sf]
    have len: "length fs1 = length fs" using fr by (metis length_map)
    show ?thesis
    proof (cases r1)
      case (Ok u)
      then have "unpack_loop_pre h outs (Suc i) ?j' output (Struct t fs1) = (dst', r)"
        using Cons.prems Inr sf by (simp add: Let_def assign_output_def)
      from Cons.IH[OF this] obtain fs' where fs': "dst' = Struct t fs'" "map fst fs' = map fst fs1"
        "\<forall>k<length fs1. (\<forall>a\<in>set outs. capitalised h (Argument.Name a) \<noteq> Some (fst (fs1 ! k)))
              \<longrightarrow> fs' ! k = fs1 ! k"
        by blast
      have "\<forall>k<length fs. (\<forall>a\<in>set (a # outs). capitalised h (Argument.Name a) \<noteq> Some (fst (fs ! k)))
              \<longrightarrow> fs' ! k = fs ! k"
      proof (intro allI impI)
        fix k assume k: "k < length fs"
          and nm: "\<forall>a\<in>set (a # outs). capitalised h (Argument.Name a) \<noteq> Some (fst (fs ! k))"
        have "fst (fs1 ! k) = fst (fs ! k)"
          using fr k len by (metis nth_map)
        then have "fs' ! k = fs1 ! k" using fs'(3) k len nm by simp
        moreover have "fs1 ! k = fs ! k" using fr k nm by simp
        ultimately show "fs' ! k = fs ! k" by simp
      qed
      then show ?thesis using fs' fr by auto
    next
      case (Err e)
      then have "dst' = Struct t fs1" using Cons.prems Inr sf by (simp add: Let_def assign_output_def)
      then show ?thesis using fr by auto
    next
      case (Panic p)
      then have "dst' = Struct t fs1" using Cons.prems Inr sf by (simp add: Let_def assign_output_def)
      then show ?thesis using fr by auto
    qed
  qed
qed

lemma unpack_loop_post_struct:
  "unpack_loop_post h outs i j output (Struct t fs) = (dst', r) \<Longrightarrow>
     \<exists>fs'. dst' = Struct t fs' \<and> map fst fs' = map fst fs
       \<and> (\<forall>k<length fs. (\<forall>a\<in>set outs. capitalised h (Argument.Name a) \<noteq> Some (fst (fs ! k)))
              \<longrightarrow> fs' ! k = fs ! k)"
proof (induction outs arbitrary: i j fs dst' r)
  case Nil
  then show ?case by auto
next
  case (Cons a outs)
  let ?j' = "if T (Type a) = ArrayTy then int64 (j + (Size (Type a) - 1)) else j"
  show ?case
  proof (cases "toGoType h (int64 ((int i + j) * 32)) (Type a) output")
    case (Inl err)
    then have "dst' = Struct t fs" using Cons.prems by (simp add: Let_def)
    then show ?thesis by auto
  next
    case (Inr v)
    obtain fs1 r1 where sf: "set_fields h a v fs = (fs1, r1)"
      by (cases "set_fields h a v fs")
    note fr = set_fields_frame[OF sf]
    have len: "length fs1 = length fs" using fr by (metis length_map)
    show ?thesis
    proof (cases r1)
      case (Ok u)
      then have "unpack_loop_post h outs (Suc i) ?j' output (Struct t fs1) = (dst', r)"
        using Cons.prems Inr sf by (simp add: Let_def assign_output_def)
      from Cons.IH[OF this] obtain fs' where fs': "dst' = Struct t fs'" "map fst fs' = map fst fs1"
        "\<forall>k<length fs1. (\<forall>a\<in>set outs. capitalised h (Argument.Name a) \<noteq> Some (fst (fs1 ! k)))
              \<longrightarrow> fs' ! k = fs1 ! k"
        by blast
      have "\<forall>k<length fs. (\<forall>a\<in>set (a # outs). capitalised h (Argument.Name a) \<noteq> Some (fst (fs ! k)))
              \<longrightarrow> fs' ! k = fs ! k"
      proof (intro allI impI)
        fix k assume k: "k < length fs"
          and nm: "\<forall>a\<in>set (a # outs). capitalised h (Argument.Name a) \<noteq> Some (fst (fs ! k))"
        have "fst (fs1 ! k) = fst (fs ! k)"
          using fr k len by (metis nth_map)
        then have "fs' ! k = fs1 ! k" using fs'(3) k len nm by simp
        moreover have "fs1 ! k = fs ! k" using fr k nm by simp
        ultimately show "fs' ! k = fs ! k" by simp
      qed
      then show ?thesis using fs' fr by auto
    next
      case (Err e)
      then have "dst' = Struct t fs1" using Cons.prems Inr sf by (simp add: Let_def assign_output_def)
      then show ?thesis using fr by auto
    next
      case (Panic p)
      then have "dst' = Struct t fs1" using Cons.prems Inr sf by (simp add: Let_def assign_output_def)
      then show ?thesis using fr by auto
    qed
  qed
qed

subsection \<open>Destinations that are not pointers\<close>

text \<open>
  C7. When the destination is not a pointer, \<^verbatim>\<open>tupleUnpack\<close> (in both revisions) and
  \<^verbatim>\<open>singleUnpack\<close> return the non-pointer error, which names the type of the
  destination. The destination is returned as it was, and the result depends
  neither on the schema nor on the buffer nor on any helper: nothing is decoded.
\<close>

theorem unpack_non_pointer:
  "\<forall>t x. v \<noteq> Ptr t x \<Longrightarrow>
     tupleUnpack_pre h m v output = (v, Err (NonPointer (typeOf v)))
   \<and> tupleUnpack_post h m v output = (v, Err (NonPointer (typeOf v)))
   \<and> singleUnpack h m v output = (v, Err (NonPointer (typeOf v)))"
  by (cases v) (simp_all add: tupleUnpack_pre_def tupleUnpack_post_def singleUnpack_def)

theorem unpack_non_pointer_witness:
  "tupleUnpack_pre example_helpers logStaticArray (transfer_struct nil_bigInt) staticArrayEventData
     = (transfer_struct nil_bigInt, Err (NonPointer (Named ''abi.EventTransfer'')))
   \<and> singleUnpack example_helpers logStaticArray (transfer_struct nil_bigInt) staticArrayEventData
     = (transfer_struct nil_bigInt, Err (NonPointer (Named ''abi.EventTransfer'')))"
  using unpack_non_pointer[of "transfer_struct nil_bigInt" example_helpers logStaticArray
          staticArrayEventData]
  by (simp add: transfer_struct_def transfer_t_def)

subsection \<open>Destinations that are too short\<close>

text \<open>
  C6. With the destination check of the spec, \<^verbatim>\<open>tupleUnpack\<close> (in both revisions)
  into a pointer to a slice or an array of \<open>m\<close> elements, for a method with \<open>n > m\<close>
  outputs, returns the insufficient-elements error with \<open>want n, got m\<close>; the
  destination is returned as it was, whatever the buffer and the other helpers are.
  The test of the \<^verbatim>\<open>Pledge\<close> event with a list of two elements reports
  \<open>want 3, got 2\<close>.
\<close>

theorem short_sequence_rejected:
  assumes "requireUnpackKind h = requireUnpackKind_spec"
    and "length es < length (Outputs m)"
  shows "tupleUnpack_pre h m (Ptr pt (Slice t es)) output
           = (Ptr pt (Slice t es), Err (InsufficientElements (length (Outputs m)) (length es)))
       \<and> tupleUnpack_pre h m (Ptr pt (Array t es)) output
           = (Ptr pt (Array t es), Err (InsufficientElements (length (Outputs m)) (length es)))
       \<and> tupleUnpack_post h m (Ptr pt (Slice t es)) output
           = (Ptr pt (Slice t es), Err (InsufficientElements (length (Outputs m)) (length es)))
       \<and> tupleUnpack_post h m (Ptr pt (Array t es)) output
           = (Ptr pt (Array t es), Err (InsufficientElements (length (Outputs m)) (length es)))"
  using assms
  by (simp add: tupleUnpack_pre_def tupleUnpack_post_def requireUnpackKind_spec_def)

theorem short_sequence_rejected_witness:
  "length short_list < length (Outputs pledge)
   \<and> tupleUnpack_pre example_helpers pledge
        (Ptr (PtrTo (SliceOf iface_t)) (Slice (SliceOf iface_t) short_list)) pledgeData1
      = (Ptr (PtrTo (SliceOf iface_t)) (Slice (SliceOf iface_t) short_list),
         Err (InsufficientElements 3 2))"
proof -
  have l: "length short_list < length (Outputs pledge)"
    by (simp add: short_list_def pledge_def)
  have r: "requireUnpackKind example_helpers = requireUnpackKind_spec"
    by (simp add: helpers_simps)
  from short_sequence_rejected[OF r l, of "PtrTo (SliceOf iface_t)" "SliceOf iface_t" pledgeData1]
  show ?thesis
    using l by (simp add: short_list_def pledge_def)
qed

subsection \<open>Named records\<close>

lemma upper_v: "ToUpper_spec ''v'' = ''V''"
  by (simp add: ToUpper_spec_def upper_char_def char_of_byte bit_0)

lemma decode_two_at_0: "toGoType_spec 0 uint256_t data_two = Inr (bigInt 1000000)"
  by (simp add: data_two_def transferData1_def word_defs)

lemma decode_two_at_32: "toGoType_spec 32 uint256_t data_two = Inr (bigInt 5)"
  by (simp add: data_two_def transferData1_def word_defs)

lemma decode_one_at_0: "toGoType_spec 0 uint256_t transferData1 = Inr (bigInt 1000000)"
  by (simp add: transferData1_def word_defs)

lemma decode_one_at_32: "toGoType_spec 32 uint256_t transferData1 = Inl (Truncated 32 64)"
  by (simp add: transferData1_def word_defs)

lemmas struct_defs =
  transfer_dest_def transfer_struct_def transfer_t_def method_unnamed_def capitalised_def
  upper_v nil_bigInt_def big_t_def bigInt_def

lemma upper_m: "ToUpper_spec ''m'' = ''M''"
  by (simp add: ToUpper_spec_def upper_char_def char_of_byte bit_0)

text \<open>
  C9. Into \<^verbatim>\<open>&EventTransfer{}\<close>, from the words 1000000 and 5: for the outputs
  \<open>(value, memo)\<close> the first value is assigned to the field \<^verbatim>\<open>Value\<close> and the
  second, whose capitalised name \<^verbatim>\<open>Memo\<close> is the name of no field, is skipped
  without error. For the outputs \<open>(value, unnamed)\<close> the second argument matches no
  field either, but \<^verbatim>\<open>tupleUnpack\<close> does not skip it: after the first value has
  been written, slicing the first byte off the empty name panics, in both revisions.
\<close>

theorem unnamed_output_not_skipped:
  "tupleUnpack_pre example_helpers method_unmatched (transfer_dest nil_bigInt) data_two
     = (transfer_dest (bigInt 1000000), Ok ())
   \<and> tupleUnpack_post example_helpers method_unmatched (transfer_dest nil_bigInt) data_two
     = (transfer_dest (bigInt 1000000), Ok ())
   \<and> tupleUnpack_pre example_helpers method_unnamed (transfer_dest nil_bigInt) data_two
     = (transfer_dest (bigInt 1000000), Panic SliceBoundsOutOfRange)
   \<and> tupleUnpack_post example_helpers method_unnamed (transfer_dest nil_bigInt) data_two
     = (transfer_dest (bigInt 1000000), Panic SliceBoundsOutOfRange)"
proof -
  have a: "tupleUnpack_pre example_helpers method_unmatched (transfer_dest nil_bigInt) data_two
     = (transfer_dest (bigInt 1000000), Ok ())"
    by (simp add: tupleUnpack_pre_def unpack_defs struct_defs method_unmatched_def upper_m
          decode_two_at_0 decode_two_at_32)
  have b: "tupleUnpack_post example_helpers method_unmatched (transfer_dest nil_bigInt) data_two
     = (transfer_dest (bigInt 1000000), Ok ())"
    by (simp add: tupleUnpack_post_def unpack_defs struct_defs method_unmatched_def upper_m
          decode_two_at_0 decode_two_at_32)
  have c: "tupleUnpack_pre example_helpers method_unnamed (transfer_dest nil_bigInt) data_two
     = (transfer_dest (bigInt 1000000), Panic SliceBoundsOutOfRange)"
    by (simp add: tupleUnpack_pre_def unpack_defs struct_defs decode_two_at_0 decode_two_at_32)
  have d: "tupleUnpack_post example_helpers method_unnamed (transfer_dest nil_bigInt) data_two
     = (transfer_dest (bigInt 1000000), Panic SliceBoundsOutOfRange)"
    by (simp add: tupleUnpack_post_def unpack_defs struct_defs decode_two_at_0 decode_two_at_32)
  from a b c d show ?thesis by simp
qed

text \<open>
  C10, as stated, fails when the call ends before the unnamed output is written:
  on the 32 bytes of \<^verbatim>\<open>transferData1\<close> the second, unnamed output of
  \<open>method_unnamed\<close> cannot be decoded, and both revisions return the error of the
  decoder instead of panicking.
\<close>

theorem unnamed_output_decode_error:
  "tupleUnpack_pre example_helpers method_unnamed (transfer_dest nil_bigInt) transferData1
     = (transfer_dest (bigInt 1000000), Err (Truncated 32 64))
   \<and> tupleUnpack_post example_helpers method_unnamed (transfer_dest nil_bigInt) transferData1
     = (transfer_dest (bigInt 1000000), Err (Truncated 32 64))"
  by (simp add: tupleUnpack_pre_def tupleUnpack_post_def unpack_defs struct_defs
        decode_one_at_0 decode_one_at_32)

text \<open>
  C10, amended. Let the outputs of \<open>m\<close> be \<open>before @ oarg # rest\<close> with \<open>oarg\<close>
  unnamed, and let the destination be a pointer to a struct with at least one field
  that passes the destination check. If the outputs \<open>before\<close> are decoded and written
  without error, leaving the struct \<open>dst1\<close>, and \<open>oarg\<close> is decoded at the position
  of the cursor, then \<^verbatim>\<open>tupleUnpack\<close> panics (slice bounds out of range) and leaves
  \<open>dst1\<close> behind. This holds in both revisions, each at its own cursor position.
\<close>

theorem unnamed_output_panics:
  assumes "Outputs m = before @ oarg # rest"
    and "Argument.Name oarg = []"
    and "fs \<noteq> []"
    and "requireUnpackKind h (Struct t fs) (Outputs m) False = None"
  shows "(unpack_loop_pre h before 0 0 output (Struct t fs) = (dst1, Ok ())
          \<and> toGoType h (int64 ((int (length before) + cursor_pre (before @ [oarg]) 0) * 32))
               (Type oarg) output = Inr v
          \<longrightarrow> tupleUnpack_pre h m (Ptr pt (Struct t fs)) output
                = (Ptr pt dst1, Panic SliceBoundsOutOfRange))
       \<and> (unpack_loop_post h before 0 0 output (Struct t fs) = (dst1, Ok ())
          \<and> toGoType h (int64 ((int (length before) + cursor_post before 0) * 32))
               (Type oarg) output = Inr v
          \<longrightarrow> tupleUnpack_post h m (Ptr pt (Struct t fs)) output
                = (Ptr pt dst1, Panic SliceBoundsOutOfRange))"
proof (intro conjI impI)
  assume a: "unpack_loop_pre h before 0 0 output (Struct t fs) = (dst1, Ok ())
          \<and> toGoType h (int64 ((int (length before) + cursor_pre (before @ [oarg]) 0) * 32))
               (Type oarg) output = Inr v"
  then obtain fs1 where fs1: "dst1 = Struct t fs1" "map fst fs1 = map fst fs"
    using unpack_loop_pre_struct[of h before 0 0 "output" t fs dst1 "Ok ()"] by blast
  then have ne: "fs1 \<noteq> []" using assms(3) by auto
  have step: "unpack_loop_pre h (oarg # rest) (length before) (cursor_pre before 0) output dst1
               = (dst1, Panic SliceBoundsOutOfRange)"
    using a fs1(1) set_fields_empty_name[OF assms(2) ne]
    by (simp add: Let_def cursor_pre_snoc assign_output_def)
  have "unpack_loop_pre h (Outputs m) 0 0 output (Struct t fs)
          = (dst1, Panic SliceBoundsOutOfRange)"
    using a step by (simp add: assms(1) unpack_loop_pre_append)
  then show "tupleUnpack_pre h m (Ptr pt (Struct t fs)) output
                = (Ptr pt dst1, Panic SliceBoundsOutOfRange)"
    using assms(4) by (simp add: tupleUnpack_pre_def)
next
  assume a: "unpack_loop_post h before 0 0 output (Struct t fs) = (dst1, Ok ())
          \<and> toGoType h (int64 ((int (length before) + cursor_post before 0) * 32))
               (Type oarg) output = Inr v"
  then obtain fs1 where fs1: "dst1 = Struct t fs1" "map fst fs1 = map fst fs"
    using unpack_loop_post_struct[of h before 0 0 "output" t fs dst1 "Ok ()"] by blast
  then have ne: "fs1 \<noteq> []" using assms(3) by auto
  have step: "unpack_loop_post h (oarg # rest) (length before) (cursor_post before 0) output dst1
               = (dst1, Panic SliceBoundsOutOfRange)"
    using a fs1(1) set_fields_empty_name[OF assms(2) ne]
    by (simp add: Let_def assign_output_def)
  have "unpack_loop_post h (Outputs m) 0 0 output (Struct t fs)
          = (dst1, Panic SliceBoundsOutOfRange)"
    using a step by (simp add: assms(1) unpack_loop_post_append)
  then show "tupleUnpack_post h m (Ptr pt (Struct t fs)) output
                = (Ptr pt dst1, Panic SliceBoundsOutOfRange)"
    using assms(4) by (simp add: tupleUnpack_post_def)
qed

theorem unnamed_output_panics_witness:
  "Outputs method_unnamed = [arg ''value'' uint256_t] @ arg [] uint256_t # []
   \<and> tupleUnpack_post example_helpers method_unnamed (transfer_dest nil_bigInt) data_two
       = (transfer_dest (bigInt 1000000), Panic SliceBoundsOutOfRange)
   \<and> tupleUnpack_pre example_helpers method_unnamed (transfer_dest nil_bigInt) data_two
       = (transfer_dest (bigInt 1000000), Panic SliceBoundsOutOfRange)"
proof -
  have o: "Outputs method_unnamed = [arg ''value'' uint256_t] @ arg [] uint256_t # []"
    by (simp add: method_unnamed_def)
  have n: "Argument.Name (arg [] uint256_t) = []"
    by (simp add: type_simps)
  have f: "[(''Value'', nil_bigInt)] \<noteq> []" by simp
  have r: "requireUnpackKind example_helpers (Struct transfer_t [(''Value'', nil_bigInt)])
             (Outputs method_unnamed) False = None"
    by (simp add: helpers_simps requireUnpackKind_spec_def)
  have pre: "unpack_loop_pre example_helpers [arg ''value'' uint256_t] 0 0 data_two
               (Struct transfer_t [(''Value'', nil_bigInt)])
             = (transfer_struct (bigInt 1000000), Ok ())"
    by (simp add: unpack_defs struct_defs decode_two_at_0)
  have post: "unpack_loop_post example_helpers [arg ''value'' uint256_t] 0 0 data_two
               (Struct transfer_t [(''Value'', nil_bigInt)])
             = (transfer_struct (bigInt 1000000), Ok ())"
    by (simp add: unpack_defs struct_defs decode_two_at_0)
  have d1: "toGoType example_helpers
              (int64 ((int (length [arg ''value'' uint256_t])
                       + cursor_pre ([arg ''value'' uint256_t] @ [arg [] uint256_t]) 0) * 32))
              (Type (arg [] uint256_t)) data_two = Inr (bigInt 5)"
    by (simp add: unpack_defs decode_two_at_32)
  have d2: "toGoType example_helpers
              (int64 ((int (length [arg ''value'' uint256_t])
                       + cursor_post [arg ''value'' uint256_t] 0) * 32))
              (Type (arg [] uint256_t)) data_two = Inr (bigInt 5)"
    by (simp add: unpack_defs decode_two_at_32)
  note th = unnamed_output_panics[OF o n f r, of data_two "transfer_struct (bigInt 1000000)"
              "bigInt 5" "PtrTo transfer_t"]
  have "tupleUnpack_pre example_helpers method_unnamed
          (Ptr (PtrTo transfer_t) (Struct transfer_t [(''Value'', nil_bigInt)])) data_two
        = (Ptr (PtrTo transfer_t) (transfer_struct (bigInt 1000000)), Panic SliceBoundsOutOfRange)"
    using th pre d1 by blast
  moreover have "tupleUnpack_post example_helpers method_unnamed
          (Ptr (PtrTo transfer_t) (Struct transfer_t [(''Value'', nil_bigInt)])) data_two
        = (Ptr (PtrTo transfer_t) (transfer_struct (bigInt 1000000)), Panic SliceBoundsOutOfRange)"
    using th post d2 by blast
  ultimately show ?thesis
    using o by (simp add: transfer_dest_def transfer_struct_def)
qed

section \<open>Properties of Method.Sig and Method.Id\<close>

lemma Sig_loop_fill:
  "i + length ins \<le> length types \<Longrightarrow>
     Sig_loop ins i types
       = take i types @ map (\<lambda>a. Type_String (Type a)) ins @ drop (i + length ins) types"
proof (induction ins arbitrary: i types)
  case Nil
  then show ?case by simp
next
  case (Cons a ins)
  have "Suc i + length ins \<le> length (types[i := Type_String (Type a)])"
    using Cons.prems by simp
  from Cons.IH[OF this] Cons.prems
  show ?case
    by (simp add: take_Suc_conv_app_nth upd_conv_take_nth_drop)
qed

subsection \<open>Canonical type names\<close>

lemma stringForm_text_irrelevant:
  "stringForm (MkType k sz el s) = stringForm (MkType k sz el s')"
  by (cases k; cases el) simp_all

lemma canonical_type_text:
  "stringKind (canonical_type k sz el) = stringForm (canonical_type k sz el)"
  unfolding canonical_type_def Type.sel by (rule stringForm_text_irrelevant)

lemma int_width_canonical: "int_width k ds = Inr t \<Longrightarrow> stringKind t = stringForm t"
  by (auto simp: int_width_def canonical_type_text split: option.splits if_splits)

lemma byte_width_canonical: "byte_width ds = Inr t \<Longrightarrow> stringKind t = stringForm t"
  by (auto simp: byte_width_def canonical_type_text split: option.splits if_splits)

lemma hash_width_canonical: "hash_width ds = Inr t \<Longrightarrow> stringKind t = stringForm t"
  by (auto simp: hash_width_def canonical_type_text split: option.splits)

lemma parse_base_canonical: "parse_base s = Inr t \<Longrightarrow> stringKind t = stringForm t"
  unfolding parse_base_def
  apply (simp only: split: if_split_asm option.split_asm)
  apply (auto simp: canonical_type_text int_width_canonical byte_width_canonical
                    hash_width_canonical)
  done

lemma type_of_rev_canonical: "type_of_rev r = Inr t \<Longrightarrow> stringKind t = stringForm t"
  by (cases r)
     (auto simp: canonical_type_text parse_base_canonical
           split: option.splits if_splits list.splits sum.splits)

lemma NewType_canonical: "NewType s = Inr t \<Longrightarrow> stringKind t = stringForm t"
  unfolding NewType_def by (rule type_of_rev_canonical)

lemma is_digit_char_of: "d < 10 \<Longrightarrow> is_digit (char_of (48 + d :: nat))"
  by (simp add: is_digit_def)

lemma show_nat_digits: "show_nat n \<noteq> [] \<and> list_all is_digit (show_nat n)"
proof (induction n rule: show_nat.induct)
  case (1 n)
  show ?case
  proof (cases "n < 10")
    case True
    then show ?thesis by (simp add: show_nat.simps[of n] is_digit_char_of)
  next
    case False
    then show ?thesis using 1 by (simp add: show_nat.simps[of n] is_digit_char_of)
  qed
qed

lemma digit_not_bracket: "is_digit c \<Longrightarrow> c \<noteq> CHR ''[''"
  by (auto simp: is_digit_def)

lemma base_token_number:
  "list_all (\<lambda>c. c \<noteq> CHR ''['') p \<Longrightarrow> base_token (p @ show_nat n) = p @ show_nat n"
  unfolding base_token_def
  using show_nat_digits[of n] digit_not_bracket
  by (auto simp: list_all_iff)

lemma base_token_array: "base_token (s @ CHR ''['' # rest) = base_token s"
  unfolding base_token_def by (simp add: takeWhile_tail)

lemma stringForm_base_token:
  "base_token (stringForm t) \<noteq> ''int'' \<and> base_token (stringForm t) \<noteq> ''uint''"
proof (induction t rule: stringForm.induct)
  case (1 sz e s)
  then show ?case by (simp add: base_token_array)
next
  case (2 sz e s)
  then show ?case by (simp add: base_token_array)
next
  case (3 sz el s)
  have "base_token (''int'' @ show_nat (nat sz)) = ''int'' @ show_nat (nat sz)"
    by (rule base_token_number) simp
  then show ?case using show_nat_digits[of "nat sz"] by simp
next
  case (4 sz el s)
  have "base_token (''uint'' @ show_nat (nat sz)) = ''uint'' @ show_nat (nat sz)"
    by (rule base_token_number) simp
  then show ?case using show_nat_digits[of "nat sz"] by simp
next
  case (9 sz el s)
  have "base_token (''bytes'' @ show_nat (nat sz)) = ''bytes'' @ show_nat (nat sz)"
    by (rule base_token_number) simp
  then show ?case by simp
next
  case (10 sz el s)
  have "base_token (''hash'' @ show_nat (nat sz)) = ''hash'' @ show_nat (nat sz)"
    by (rule base_token_number) simp
  then show ?case by simp
qed (simp_all add: base_token_def)

lemma show_nat_256: "show_nat 256 = ''256''"
  by (simp add: show_nat.simps[of 256] show_nat.simps[of 25] show_nat.simps[of 2]
        char_of_byte bit_0)

lemma show_nat_32: "show_nat 32 = ''32''"
  by (simp add: show_nat.simps[of 32] show_nat.simps[of 3] char_of_byte bit_0)

lemma NewType_int: "NewType ''int'' = Inr (MkType IntTy 256 None ''int256'')"
  by (simp add: NewType_def parse_base_def canonical_type_def show_nat_256)

lemma NewType_uint: "NewType ''uint'' = Inr (MkType UintTy 256 None ''uint256'')"
  by (simp add: NewType_def parse_base_def canonical_type_def show_nat_256)

lemma NewType_uint32: "NewType ''uint32'' = Inr (MkType UintTy 32 None ''uint32'')"
  by (simp add: NewType_def parse_base_def canonical_type_def show_nat_32 strip_prefix_def
        int_width_def parse_nat_def is_digit_def)

lemma digit_value: "d < 10 \<Longrightarrow> (of_char (char_of (48 + d :: nat)) :: nat) - 48 = d"
  by simp

lemma parse_nat_show_nat: "parse_nat (show_nat n) = Some n"
proof -
  have "foldl (\<lambda>n c. 10 * n + ((of_char c :: nat) - 48)) 0 (show_nat n) = n"
  proof (induction n rule: show_nat.induct)
    case (1 n)
    show ?case
    proof (cases "n < 10")
      case True
      then show ?thesis by (simp add: show_nat.simps[of n])
    next
      case False
      then show ?thesis using 1 by (simp add: show_nat.simps[of n])
    qed
  qed
  then show ?thesis using show_nat_digits[of n] by (simp add: parse_nat_def)
qed

lemma last_show_nat: "\<exists>c r. rev (show_nat n) = c # r \<and> is_digit c"
  using show_nat_digits[of n]
  by (cases "rev (show_nat n)") (auto simp: list_all_iff) 

lemma digit_not_close: "is_digit c \<Longrightarrow> c \<noteq> CHR '']''"
  by (auto simp: is_digit_def)

lemma type_of_rev_number:
  "type_of_rev (rev (p @ show_nat n)) = parse_base (p @ show_nat n)"
proof -
  obtain c r where cr: "rev (show_nat n) = c # r" "is_digit c"
    using last_show_nat by blast
  then have rv: "rev (p @ show_nat n) = c # (r @ rev p)" by simp
  moreover have "c \<noteq> CHR '']''" using cr(2) by (rule digit_not_close)
  ultimately have "type_of_rev (rev (p @ show_nat n)) = parse_base (rev (c # (r @ rev p)))"
    by simp
  also have "rev (c # (r @ rev p)) = p @ show_nat n"
    using rv by (metis rev_rev_ident)
  finally show ?thesis .
qed

lemma strip_prefix_append: "strip_prefix p (p @ s) = Some s"
  by (simp add: strip_prefix_def)

lemma parse_base_uint:
  "n mod 8 = 0 \<Longrightarrow> 8 \<le> n \<Longrightarrow> n \<le> 256 \<Longrightarrow>
     parse_base (''uint'' @ show_nat n) = Inr (canonical_type UintTy (int n) None)"
  using show_nat_digits[of n] strip_prefix_append[of "''uint''" "show_nat n"]
  by (simp add: parse_base_def int_width_def parse_nat_show_nat)

lemma parse_base_int:
  "n mod 8 = 0 \<Longrightarrow> 8 \<le> n \<Longrightarrow> n \<le> 256 \<Longrightarrow>
     parse_base (''int'' @ show_nat n) = Inr (canonical_type IntTy (int n) None)"
  using show_nat_digits[of n] strip_prefix_append[of "''int''" "show_nat n"]
  by (simp add: parse_base_def int_width_def parse_nat_show_nat strip_prefix_def[of "''uint''"])

lemma parse_base_bytes:
  "1 \<le> n \<Longrightarrow> n \<le> 32 \<Longrightarrow>
     parse_base (''bytes'' @ show_nat n) = Inr (canonical_type FixedBytesTy (int n) None)"
  using show_nat_digits[of n] strip_prefix_append[of "''bytes''" "show_nat n"]
  by (simp add: parse_base_def byte_width_def parse_nat_show_nat strip_prefix_def[of "''uint''"]
        strip_prefix_def[of "''int''"])

lemma parse_base_hash:
  "parse_base (''hash'' @ show_nat n) = Inr (canonical_type HashTy (int n) None)"
  using show_nat_digits[of n] strip_prefix_append[of "''hash''" "show_nat n"]
  by (simp add: parse_base_def hash_width_def parse_nat_show_nat strip_prefix_def[of "''uint''"]
        strip_prefix_def[of "''int''"] strip_prefix_def[of "''bytes''"])

lemma stringForm_canonical_type:
  "stringForm (canonical_type k sz el) = stringForm (MkType k sz el [])"
  unfolding canonical_type_def by (rule stringForm_text_irrelevant)

lemma int_width_round:
  assumes "int_width k ds = Inr t" and "k = UintTy \<or> k = IntTy"
  shows "NewType (stringForm t) = Inr t"
proof -
  from assms(1) obtain n where n: "n mod 8 = 0" "8 \<le> n" "n \<le> 256"
      and t: "t = canonical_type k (int n) None"
    by (auto simp: int_width_def split: option.splits if_splits)
  from assms(2) show ?thesis
  proof
    assume k: "k = UintTy"
    then have "stringForm t = ''uint'' @ show_nat n"
      using t by (simp add: stringForm_canonical_type)
    then show ?thesis
      using type_of_rev_number[of "''uint''" n] parse_base_uint[OF n] t k
      by (simp add: NewType_def)
  next
    assume k: "k = IntTy"
    then have "stringForm t = ''int'' @ show_nat n"
      using t by (simp add: stringForm_canonical_type)
    then show ?thesis
      using type_of_rev_number[of "''int''" n] parse_base_int[OF n] t k
      by (simp add: NewType_def)
  qed
qed

lemma byte_width_round:
  assumes "byte_width ds = Inr t"
  shows "NewType (stringForm t) = Inr t"
proof -
  from assms obtain n where n0: "0 < n" "n \<le> 32"
      and t: "t = canonical_type FixedBytesTy (int n) None"
    by (auto simp: byte_width_def split: option.splits if_splits)
  then have n: "1 \<le> n" "n \<le> 32" by simp_all
  have "stringForm t = ''bytes'' @ show_nat n"
    using t by (simp add: stringForm_canonical_type)
  then show ?thesis
    using type_of_rev_number[of "''bytes''" n] parse_base_bytes[OF n] t
    by (simp add: NewType_def)
qed

lemma hash_width_round:
  assumes "hash_width ds = Inr t"
  shows "NewType (stringForm t) = Inr t"
proof -
  from assms obtain n where t: "t = canonical_type HashTy (int n) None"
    by (auto simp: hash_width_def split: option.splits)
  have "stringForm t = ''hash'' @ show_nat n"
    using t by (simp add: stringForm_canonical_type)
  then show ?thesis
    using type_of_rev_number[of "''hash''" n] parse_base_hash[of n] t
    by (simp add: NewType_def)
qed

lemma plain_round:
  "NewType ''address'' = Inr (canonical_type AddressTy 0 None)"
  "NewType ''bool'' = Inr (canonical_type BoolTy 0 None)"
  "NewType ''string'' = Inr (canonical_type StringTy 0 None)"
  "NewType ''bytes'' = Inr (canonical_type BytesTy 0 None)"
  "NewType ''function'' = Inr (canonical_type FunctionTy 0 None)"
  by (simp_all add: NewType_def parse_base_def)

lemma wide_round:
  "NewType (''uint'' @ show_nat 256) = Inr (canonical_type UintTy 256 None)"
  "NewType (''int'' @ show_nat 256) = Inr (canonical_type IntTy 256 None)"
  using type_of_rev_number[of "''uint''" 256] parse_base_uint[of 256]
        type_of_rev_number[of "''int''" 256] parse_base_int[of 256]
  by (simp_all add: NewType_def)

lemma parse_base_round: "parse_base s = Inr t \<Longrightarrow> NewType (stringForm t) = Inr t"
  unfolding parse_base_def
  apply (simp only: split: if_split_asm option.split_asm)
  apply (auto simp: stringForm_canonical_type plain_round wide_round[simplified]
                    int_width_round byte_width_round hash_width_round)
  done

lemma dropWhile_digits:
  "list_all is_digit ds \<Longrightarrow> \<not> is_digit c \<Longrightarrow> dropWhile is_digit (ds @ c # r) = c # r"
  by (induction ds) simp_all

lemma takeWhile_digits:
  "list_all is_digit ds \<Longrightarrow> \<not> is_digit c \<Longrightarrow> takeWhile is_digit (ds @ c # r) = ds"
  by (induction ds) simp_all

lemma open_not_digit: "\<not> is_digit CHR ''[''"
  by (simp add: is_digit_def)

lemma type_of_rev_round: "type_of_rev r = Inr t \<Longrightarrow> type_of_rev (rev (stringForm t)) = Inr t"
proof (induction r arbitrary: t rule: type_of_rev.induct)
  case 1
  then show ?case using parse_base_round[of "[]" t] by (simp add: NewType_def)
next
  case (2 c r)
  show ?case
  proof (cases "c = CHR '']''")
    case False
    then have "parse_base (rev (c # r)) = Inr t" using "2.prems" by simp
    then show ?thesis using parse_base_round by (simp add: NewType_def)
  next
    case True
    then obtain r' inner where dw: "dropWhile is_digit r = CHR ''['' # r'"
        and inner: "type_of_rev r' = Inr inner"
      using "2.prems" by (auto split: list.splits if_splits sum.splits)
    have ih: "type_of_rev (rev (stringForm inner)) = Inr inner"
      using "2.IH"[OF True dw _ inner] by simp
    show ?thesis
    proof (cases "takeWhile is_digit r = []")
      case empty: True
      then have t: "t = canonical_type SliceTy 0 (Some inner)"
        using "2.prems" True dw inner by simp
      have "stringForm t = stringForm inner @ ''[]''"
        using t by (simp add: stringForm_canonical_type)
      then show ?thesis using ih t by (simp add: open_not_digit)
    next
      case False
      then obtain k where k: "parse_nat (rev (takeWhile is_digit r)) = Some k" "1 \<le> k"
          and t: "t = canonical_type ArrayTy (int k) (Some inner)"
        using "2.prems" True dw inner by (auto split: option.splits if_splits)
      have sf: "stringForm t = stringForm inner @ ''['' @ show_nat k @ '']''"
        using t by (simp add: stringForm_canonical_type)
      have ds: "list_all is_digit (rev (show_nat k))" "rev (show_nat k) \<noteq> []"
        using show_nat_digits[of k] by simp_all
      have rv: "rev (stringForm t)
                  = CHR '']'' # (rev (show_nat k) @ CHR ''['' # rev (stringForm inner))"
        using sf by simp
      have d: "dropWhile is_digit (rev (show_nat k) @ CHR ''['' # rev (stringForm inner))
                 = CHR ''['' # rev (stringForm inner)"
        using ds(1) open_not_digit by (rule dropWhile_digits)
      have tk: "takeWhile is_digit (rev (show_nat k) @ CHR ''['' # rev (stringForm inner))
                 = rev (show_nat k)"
        using ds(1) open_not_digit by (rule takeWhile_digits)
      show ?thesis
        unfolding rv using d tk ds(2) ih k(2) t by (simp add: parse_nat_show_nat)
    qed
  qed
qed

lemma NewType_round_trip: "NewType s = Inr t \<Longrightarrow> NewType (stringKind t) = Inr t"
  using type_of_rev_round[of "rev s" t] NewType_canonical[of s t]
  by (simp add: NewType_def)

subsection \<open>Signature and selector\<close>

lemma Join_comma_separated: "Join xs '','' = comma_separated xs"
proof (induction xs "'',''" rule: Join.induct)
  case 1
  then show ?case by (simp add: comma_separated_def)
next
  case (2 x)
  then show ?case by (simp add: comma_separated_def)
next
  case (3 x y ys)
  then show ?case by (simp add: comma_separated_def)
qed

lemma Sig_text:
  "Sig m = Method.Name m @ ''(''
             @ comma_separated (map (\<lambda>a. stringKind (Type a)) (Inputs m)) @ '')''"
proof -
  have "Sig_loop (Inputs m) 0 (replicate (length (Inputs m)) [])
          = map (\<lambda>a. Type_String (Type a)) (Inputs m)"
    using Sig_loop_fill[of 0 "Inputs m" "replicate (length (Inputs m)) []"] by simp
  then show ?thesis
    by (simp add: Sig_def Type_String_def Join_comma_separated)
qed

text \<open>
  C4. \<^verbatim>\<open>Sig\<close> is the name of the method, an opening parenthesis, the texts
  \<^verbatim>\<open>Type.String()\<close> of the input types with a comma behind each but the last, and a
  closing parenthesis; \<^verbatim>\<open>Id\<close> is the first four bytes of \<^verbatim>\<open>Keccak256\<close> of the bytes
  of that string, four bytes whenever the hash has 32. When the input types are
  results of the type parser, the signature is the signature of the spec, made of the
  canonical \<open>stringForm\<close> of each type: every type name in it is parsed back to the
  very type it names, and no base token is a bare \<open>int\<close> or \<open>uint\<close>. The parser
  gives the bare \<open>int\<close> and \<open>uint\<close> the names \<open>int256\<close> and \<open>uint256\<close>.
\<close>

theorem Sig_and_Id:
  "Sig m = Method.Name m @ ''(''
             @ comma_separated (map (\<lambda>a. stringKind (Type a)) (Inputs m)) @ '')''
   \<and> Id h m = take 4 (Keccak256 h (map of_char (Sig m)))
   \<and> (length (Keccak256 h (map of_char (Sig m))) = 32 \<longrightarrow> length (Id h m) = 4)
   \<and> ((\<forall>a\<in>set (Inputs m). \<exists>s. NewType s = Inr (Type a)) \<longrightarrow>
          Sig m = signature_text m
        \<and> Id h m = take 4 (Keccak256 h (map of_char (signature_text m)))
        \<and> (\<forall>a\<in>set (Inputs m).
              NewType (stringKind (Type a)) = Inr (Type a)
            \<and> base_token (stringKind (Type a)) \<noteq> ''int''
            \<and> base_token (stringKind (Type a)) \<noteq> ''uint''))
   \<and> NewType ''int'' = Inr (MkType IntTy 256 None ''int256'')
   \<and> NewType ''uint'' = Inr (MkType UintTy 256 None ''uint256'')"
proof -
  have id: "Id h m = take 4 (Keccak256 h (map of_char (Sig m)))"
    by (simp add: Id_def string_bytes_def)
  have parsed: "Sig m = signature_text m
        \<and> Id h m = take 4 (Keccak256 h (map of_char (signature_text m)))
        \<and> (\<forall>a\<in>set (Inputs m).
              NewType (stringKind (Type a)) = Inr (Type a)
            \<and> base_token (stringKind (Type a)) \<noteq> ''int''
            \<and> base_token (stringKind (Type a)) \<noteq> ''uint'')"
    if p: "\<forall>a\<in>set (Inputs m). \<exists>s. NewType s = Inr (Type a)"
  proof -
    have each: "stringKind (Type a) = stringForm (Type a)
          \<and> NewType (stringKind (Type a)) = Inr (Type a)"
      if "a \<in> set (Inputs m)" for a
    proof -
      from p that obtain s where "NewType s = Inr (Type a)" by blast
      then show ?thesis
        using NewType_canonical NewType_round_trip by blast
    qed
    then have meq: "map (\<lambda>a. stringKind (Type a)) (Inputs m)
                      = map (\<lambda>a. stringForm (Type a)) (Inputs m)"
      by simp
    have s: "Sig m = signature_text m"
      by (simp only: Sig_text signature_text_def meq)
    have e1: "\<forall>a\<in>set (Inputs m). NewType (stringKind (Type a)) = Inr (Type a)"
      using each by blast
    have e2: "\<forall>a\<in>set (Inputs m). base_token (stringKind (Type a)) \<noteq> ''int''
                \<and> base_token (stringKind (Type a)) \<noteq> ''uint''"
      using each stringForm_base_token by simp
    have i2: "Id h m = take 4 (Keccak256 h (map of_char (signature_text m)))"
      using id s by simp
    from s i2 e1 e2 show ?thesis by blast
  qed
  have len: "length (Keccak256 h (map of_char (Sig m))) = 32 \<longrightarrow> length (Id h m) = 4"
    using id by simp
  from Sig_text[of m] id len parsed NewType_int NewType_uint
  show ?thesis by blast
qed

text \<open>
  The example of the comment on \<^verbatim>\<open>Sig\<close>: the types of \<^verbatim>\<open>foo(uint32 a, int b)\<close> are
  what the parser makes of \<open>uint32\<close> and \<open>int\<close>, and the signature is
  \<^verbatim>\<open>foo(uint32,int256)\<close>; whatever the hash function is, it is applied to the
  18 bytes of this text.
\<close>

theorem Sig_and_Id_witness:
  "NewType ''uint32'' = Inr uint32_t
   \<and> NewType ''int'' = Inr int256_t
   \<and> Sig method_foo = ''foo(uint32,int256)''
   \<and> (\<forall>keccak. Id (spec_helpers keccak) method_foo
         = take 4 (keccak [0x66, 0x6f, 0x6f, 0x28, 0x75, 0x69, 0x6e, 0x74, 0x33, 0x32, 0x2c,
                           0x69, 0x6e, 0x74, 0x32, 0x35, 0x36, 0x29]))
   \<and> length (Id example_helpers method_foo) = 4"
proof -
  have a: "NewType ''uint32'' = Inr uint32_t"
    using NewType_uint32 by (simp add: uint32_t_def)
  have b: "NewType ''int'' = Inr int256_t"
    using NewType_int by (simp add: int256_t_def)
  have p: "\<forall>a\<in>set (Inputs method_foo). \<exists>s. NewType s = Inr (Type a)"
    using a b by (auto simp: method_foo_def arg_def)
  have k: "length (Keccak256 example_helpers (map of_char (Sig method_foo))) = 32"
    by (simp add: example_helpers_def spec_helpers_def)
  have t: "signature_text method_foo = ''foo(uint32,int256)''"
    by (simp add: signature_text_def comma_separated_def method_foo_def arg_def uint32_t_def
          int256_t_def show_nat_32 show_nat_256)
  note th = Sig_and_Id[of method_foo example_helpers]
  from th p have s: "Sig method_foo = signature_text method_foo" by blast
  from th k have l: "length (Id example_helpers method_foo) = 4" by blast
  have i: "Id (spec_helpers keccak) method_foo
             = take 4 (keccak [0x66, 0x6f, 0x6f, 0x28, 0x75, 0x69, 0x6e, 0x74, 0x33, 0x32, 0x2c,
                               0x69, 0x6e, 0x74, 0x32, 0x35, 0x36, 0x29])" for keccak
  proof -
    from Sig_and_Id[of method_foo "spec_helpers keccak"] p
    have "Id (spec_helpers keccak) method_foo
            = take 4 (Keccak256 (spec_helpers keccak) (map of_char (signature_text method_foo)))"
      by blast
    then show ?thesis by (simp add: t spec_helpers_def)
  qed
  from a b s t i l show ?thesis by simp
qed

section \<open>The scenarios of the test suite\<close>

lemma decode_b_at_0:
  "toGoType_spec 0 uint256_3_t staticArrayEventData = Inr (big_array 4 5 6)"
  by (simp add: staticArrayEventData_def word_defs)

lemma decode_c_at_96:
  "toGoType_spec 96 string_t staticArrayEventData = Inr (goString ''abc'')"
  by (simp add: staticArrayEventData_def word_defs)

lemma decode_b_at_96:
  "toGoType_spec 96 uint256_3_t staticArrayEventData
     = Inr (big_array 128 3
              44048180597813453602326562734351324025098966208897425494240603688123167145984)"
  by (simp add: staticArrayEventData_def word_defs)

lemma decode_c_at_128:
  "toGoType_spec 128 string_t staticArrayEventData = Inl (Truncated 192 67108899)"
  by (simp add: staticArrayEventData_def word_defs)

lemma ev_post:
  "tupleUnpack_post example_helpers logStaticArray
      (static_array_dest nil_bigInt (goString [])) staticArrayEventData
    = (static_array_result (big_array 4 5 6) (goString ''abc''), Ok ())"
  by (simp add: tupleUnpack_post_def logStaticArray_def static_array_dest_def
        static_array_result_def unpack_defs decode_b_at_0 decode_c_at_96
        big_array_def goString_def big_t_def)

lemma ev_pre:
  "tupleUnpack_pre example_helpers logStaticArray
      (static_array_dest nil_bigInt (goString [])) staticArrayEventData
    = (static_array_result
         (big_array 128 3
            44048180597813453602326562734351324025098966208897425494240603688123167145984)
         (goString []),
       Err (Truncated 192 67108899))"
  by (simp add: tupleUnpack_pre_def logStaticArray_def static_array_dest_def
        static_array_result_def unpack_defs decode_b_at_96 decode_c_at_128
        big_array_def goString_def big_t_def)

lemmas nested_defs =
  uint256_2_t_def uint256_2_3_t_def big_pair_def big_pairs_def pairs_123456_def

lemma nested_type_simps:
  "T uint256_2_3_t = ArrayTy" "Size uint256_2_3_t = 3"
  by (simp_all add: uint256_2_3_t_def)

lemma typePack_n:
  "\<forall>k<length args_n.
     typePack example_helpers (Type (Inputs method_n ! k)) (args_n ! k) = Inr (encs_n ! k)"
proof (intro allI impI)
  fix k assume "k < length args_n"
  then have k: "k = 0 \<or> k = 1"
    unfolding args_n_def by (rule less_2_cases)
  have e0: "typePack example_helpers (Type (Inputs method_n ! 0)) (args_n ! 0) = Inr (encs_n ! 0)"
    by (simp add: method_n_def args_n_def encs_n_def nested_defs pack_eval)
  have e1: "typePack example_helpers (Type (Inputs method_n ! 1)) (args_n ! 1) = Inr (encs_n ! 1)"
    by (simp add: method_n_def args_n_def encs_n_def pack_eval)
  from k e0 e1
  show "typePack example_helpers (Type (Inputs method_n ! k)) (args_n ! k) = Inr (encs_n ! k)"
    by blast
qed

lemma pack_n: "pack example_helpers method_n args_n = Ok data_n"
proof -
  have "length args_n = length (Inputs method_n)"
    by (simp add: args_n_def method_n_def)
  from pack_layout_aux[OF this typePack_n]
  show ?thesis
    by (simp add: method_n_def encs_n_def data_n_def nested_defs encode_eval)
qed

lemma decode_n_a_at_0: "toGoType_spec 0 uint256_2_3_t data_n = Inr pairs_123456"
  by (simp add: data_n_def nested_defs word_defs)

lemma decode_n_b_at_96: "toGoType_spec 96 uint256_t data_n = Inr (bigInt 4)"
  by (simp add: data_n_def word_defs)

lemma decode_n_b_at_192: "toGoType_spec 192 uint256_t data_n = Inr (bigInt 7)"
  by (simp add: data_n_def word_defs)

lemma unpack_n_post:
  "tupleUnpack_post example_helpers method_n
      (dest_n nil_pairs nil_bigInt) data_n
    = (dest_n pairs_123456 (bigInt 4), Ok ())"
  by (simp add: tupleUnpack_post_def method_n_def dest_n_def unpack_defs nested_type_simps
        decode_n_a_at_0 decode_n_b_at_96 big_pair_def big_pairs_def pairs_123456_def nil_pairs_def
        bigInt_def big_t_def nil_bigInt_def)

lemma head_words_nested: "head_words uint256_3_t = 3 \<and> head_words uint256_2_3_t = 6"
  by (simp add: uint256_3_t_def uint256_2_3_t_def uint256_2_t_def uint256_t_def)

lemma show_nat_digit: "show_nat 2 = ''2''" "show_nat 3 = ''3''"
  by (simp_all add: show_nat.simps[of 2] show_nat.simps[of 3] char_of_byte bit_0)

lemma NewType_nested:
  "NewType ''uint256[3]'' = Inr uint256_3_t \<and> NewType ''uint256[2][3]'' = Inr uint256_2_3_t"
  by (simp add: NewType_def parse_base_def canonical_type_def show_nat_256 show_nat_digit
        strip_prefix_def int_width_def parse_nat_def is_digit_def
        uint256_t_def uint256_3_t_def uint256_2_t_def uint256_2_3_t_def)

text \<open>
  C5. The revision of \<^verbatim>\<open>tupleUnpack\<close> that moves its cursor after decoding decodes
  \<^verbatim>\<open>staticArrayEventData\<close>, against \<open>(uint256[3] b, string c)\<close>, to
  \<open>b = [4, 5, 6]\<close> and \<open>c = "abc"\<close>: there the array has three elements of one word
  each. The cursor moves by \<^verbatim>\<open>Type.Size\<close>, the number of elements, and not by the
  number of words the array takes. The type string \<open>uint256[2][3]\<close> is parsed to an
  array of three arrays of two integers. For \<^verbatim>\<open>n(uint256[2][3] a, uint256 b)\<close> and
  \<open>([[1, 2], [3, 4], [5, 6]], 7)\<close> the array takes six words, \<^verbatim>\<open>pack\<close> writes the
  words 1 to 7, and the value 7 of \<open>b\<close> stands six words behind the start of the
  array, at byte 192; \<^verbatim>\<open>tupleUnpack\<close> reads \<open>b\<close> three words behind it, at byte
  96 inside the array, and returns \<open>b = 4\<close> without an error.
\<close>

theorem cursor_counts_elements_not_words:
  "tupleUnpack_post example_helpers logStaticArray
      (static_array_dest nil_bigInt (goString [])) staticArrayEventData
    = (static_array_result (big_array 4 5 6) (goString ''abc''), Ok ())
   \<and> NewType ''uint256[3]'' = Inr uint256_3_t
   \<and> head_words uint256_3_t = 3
   \<and> NewType ''uint256[2][3]'' = Inr uint256_2_3_t
   \<and> head_words uint256_2_3_t = 6
   \<and> typePack example_helpers uint256_2_3_t pairs_123456 = Inr (take 192 data_n)
   \<and> pack example_helpers method_n args_n = Ok data_n
   \<and> toGoType example_helpers 192 uint256_t data_n = Inr (bigInt 7)
   \<and> toGoType example_helpers 96 uint256_t data_n = Inr (bigInt 4)
   \<and> tupleUnpack_post example_helpers method_n (dest_n nil_pairs nil_bigInt) data_n
       = (dest_n pairs_123456 (bigInt 4), Ok ())"
proof -
  have "0 < length args_n" by (simp add: args_n_def)
  with typePack_n
  have "typePack example_helpers (Type (Inputs method_n ! 0)) (args_n ! 0) = Inr (encs_n ! 0)"
    by blast
  then have e: "typePack example_helpers uint256_2_3_t pairs_123456 = Inr (take 192 data_n)"
    by (simp add: method_n_def args_n_def encs_n_def data_n_def type_simps)
  have d: "toGoType example_helpers 192 uint256_t data_n = Inr (bigInt 7)"
      "toGoType example_helpers 96 uint256_t data_n = Inr (bigInt 4)"
    by (simp_all add: helpers_simps decode_n_b_at_192 decode_n_b_at_96)
  from ev_post head_words_nested NewType_nested e pack_n d unpack_n_post show ?thesis by simp
qed

lemma revisions_agree_without_arrays:
  "\<forall>a\<in>set outs. T (Type a) \<noteq> ArrayTy \<Longrightarrow>
     unpack_loop_pre h outs i j outputSlice dst = unpack_loop_post h outs i j outputSlice dst"
proof (induction outs arbitrary: i dst)
  case Nil
  then show ?case by simp
next
  case (Cons a outs)
  then have na: "T (Type a) \<noteq> ArrayTy" and ih: "\<And>i dst.
      unpack_loop_pre h outs i j outputSlice dst = unpack_loop_post h outs i j outputSlice dst"
    by simp_all
  show ?case
  proof (cases "toGoType h (int64 ((int i + j) * 32)) (Type a) outputSlice")
    case (Inl err)
    then show ?thesis using na by (simp add: Let_def)
  next
    case (Inr v)
    obtain dst' r where ao: "assign_output h a v i dst = (dst', r)"
      by (cases "assign_output h a v i dst")
    show ?thesis
      using Inr ao na ih by (cases r) (simp_all add: Let_def)
  qed
qed

text \<open>
  C2. On a schema without fixed arrays the two loops do the same
  (\<open>revisions_agree_without_arrays\<close>). The two revisions of \<^verbatim>\<open>tupleUnpack\<close> differ on the scenario of the test
  suite: the one that moves the cursor after decoding returns \<open>b = [4, 5, 6]\<close> and
  \<open>c = "abc"\<close>; the one that adds \<open>Size\<close> before decoding reads \<open>b\<close> at byte 96
  (the offset word, the length and the text of the string), writes it, and then
  fails to decode \<open>c\<close> at byte 128.
\<close>

theorem revisions_differ_on_static_array:
  "tupleUnpack_post example_helpers logStaticArray
      (static_array_dest nil_bigInt (goString [])) staticArrayEventData
    = (static_array_result (big_array 4 5 6) (goString ''abc''), Ok ())
   \<and> tupleUnpack_pre example_helpers logStaticArray
      (static_array_dest nil_bigInt (goString [])) staticArrayEventData
    = (static_array_result
         (big_array 128 3
            44048180597813453602326562734351324025098966208897425494240603688123167145984)
         (goString []),
       Err (Truncated 192 67108899))"
  using ev_post ev_pre by simp

lemma typePack_g:
  "\<forall>k<length args_g.
     typePack example_helpers (Type (Inputs method_g ! k)) (args_g ! k) = Inr (encs_g ! k)"
proof (intro allI impI)
  fix k assume "k < length args_g"
  then have k: "k = 0 \<or> k = 1"
    unfolding args_g_def by (rule less_2_cases)
  have e0: "typePack example_helpers (Type (Inputs method_g ! 0)) (args_g ! 0) = Inr (encs_g ! 0)"
    by (simp add: method_g_def args_g_def encs_g_def pack_eval)
  have e1: "typePack example_helpers (Type (Inputs method_g ! 1)) (args_g ! 1) = Inr (encs_g ! 1)"
    by (simp add: method_g_def args_g_def encs_g_def pack_eval)
  from k e0 e1
  show "typePack example_helpers (Type (Inputs method_g ! k)) (args_g ! k) = Inr (encs_g ! k)"
    by blast
qed

lemma pack_g: "pack example_helpers method_g args_g = Ok data_g"
proof -
  have "length args_g = length (Inputs method_g)"
    by (simp add: args_g_def method_g_def)
  from pack_layout_aux[OF this typePack_g]
  show ?thesis
    by (simp add: method_g_def encs_g_def data_g_def encode_eval)
qed

lemma decode_g_a_at_96:
  "toGoType_spec 96 uint256_3_t data_g = Inl (Truncated 128 160)"
  by (simp add: data_g_def word_defs)

lemma decode_g_a_at_0:
  "toGoType_spec 0 uint256_3_t data_g = Inr (big_array 1 2 3)"
  by (simp add: data_g_def word_defs)

lemma decode_g_b_at_96:
  "toGoType_spec 96 uint256_t data_g = Inr (bigInt 4)"
  by (simp add: data_g_def word_defs)

lemma decode_h_b_at_0:
  "toGoType_spec 0 uint256_3_t data_h = Inr (big_array 4 5 6)"
  by (simp add: data_h_def word_defs)

lemma decode_h_c_at_96:
  "toGoType_spec 96 string_t data_h = Inr (goString (replicate 6 (CHR 0x00)))"
  by (simp add: data_h_def word_defs char_of_def)

lemma unpack_g_pre:
  "tupleUnpack_pre example_helpers method_g
      (dest_g (Array (ArrayOf 3 big_t) [nil_bigInt, nil_bigInt, nil_bigInt]) nil_bigInt) data_g
    = (dest_g (Array (ArrayOf 3 big_t) [nil_bigInt, nil_bigInt, nil_bigInt]) nil_bigInt,
       Err (Truncated 128 160))"
  by (simp add: tupleUnpack_pre_def method_g_def dest_g_def unpack_defs decode_g_a_at_96)

lemma unpack_g_post:
  "tupleUnpack_post example_helpers method_g
      (dest_g (Array (ArrayOf 3 big_t) [nil_bigInt, nil_bigInt, nil_bigInt]) nil_bigInt) data_g
    = (dest_g (big_array 1 2 3) (bigInt 4), Ok ())"
  by (simp add: tupleUnpack_post_def method_g_def dest_g_def unpack_defs decode_g_a_at_0
        decode_g_b_at_96 big_array_def bigInt_def big_t_def nil_bigInt_def)

lemma unpack_h_post:
  "tupleUnpack_post example_helpers method_h
      (static_array_dest nil_bigInt (goString [])) data_h
    = (static_array_result (big_array 4 5 6) (goString (replicate 6 (CHR 0x00))), Ok ())"
  by (simp add: tupleUnpack_post_def method_h_def static_array_dest_def
        static_array_result_def unpack_defs decode_h_b_at_0 decode_h_c_at_96
        big_array_def goString_def big_t_def)

text \<open>
  C1. Decoding what \<^verbatim>\<open>pack\<close> produced does not always give the values back. For
  \<^verbatim>\<open>g(uint256[3] a, uint256 b)\<close> and \<open>([1, 2, 3], 4)\<close>, \<^verbatim>\<open>pack\<close> returns the four
  words 1, 2, 3, 4; the revision of \<^verbatim>\<open>tupleUnpack\<close> that adds \<open>Size\<close> before decoding
  looks for \<open>a\<close> at byte 96 and fails, where the other revision returns
  \<open>([1, 2, 3], 4)\<close>. For \<^verbatim>\<open>h(uint256[3] b, string c)\<close> and \<open>([4, 5, 6], "abc")\<close>,
  \<^verbatim>\<open>pack\<close> writes the offset \<open>32 * 2 = 0x40\<close> of the string although the head is
  four words long, and even the revision with the later cursor decodes \<open>c\<close> as six
  zero bytes.
\<close>

theorem pack_unpack_round_trip_fails:
  "pack example_helpers method_g args_g = Ok data_g
   \<and> tupleUnpack_pre example_helpers method_g
        (dest_g (Array (ArrayOf 3 big_t) [nil_bigInt, nil_bigInt, nil_bigInt]) nil_bigInt) data_g
      = (dest_g (Array (ArrayOf 3 big_t) [nil_bigInt, nil_bigInt, nil_bigInt]) nil_bigInt,
         Err (Truncated 128 160))
   \<and> tupleUnpack_post example_helpers method_g
        (dest_g (Array (ArrayOf 3 big_t) [nil_bigInt, nil_bigInt, nil_bigInt]) nil_bigInt) data_g
      = (dest_g (big_array 1 2 3) (bigInt 4), Ok ())
   \<and> pack example_helpers method_h args_h = Ok data_h
   \<and> tupleUnpack_post example_helpers method_h
        (static_array_dest nil_bigInt (goString [])) data_h
      = (static_array_result (big_array 4 5 6) (goString (replicate 6 (CHR 0x00))), Ok ())"
  using pack_g unpack_g_pre unpack_g_post pack_h unpack_h_post by simp

end
